theory Spec2Isabelle
  imports Complex_Main "HOL-Library.Word"
begin

unbundle bit_operations_syntax

section \<open>Sniffle packet decoder (python\_cli/sniffle/packet\_decoder.py)\<close>

text \<open>
  The decoder turns a captured link-layer record into an object of one of the PDU
  classes and then updates the correlation state of the capture session. The embedding
  follows the Python text: a class instance is a record whose attributes are options
  (\<open>None\<close> for an attribute that holds Python's None or was never assigned), the class
  of an instance is a tag, \<open>isinstance\<close> walks the class hierarchy, an exception is
  the \<open>Inl\<close> of a sum, and the in-place updates of the decoder state are state passing.

  Timestamps are Python floats, that is IEEE 754 doubles. A float is taken as the real
  number it denotes, which is exact for the comparisons. The decoder also adds float
  constants to a timestamp and multiplies an int by one: each literal and each operation
  is rounded to the nearest double (\<open>float_round\<close> below), as the interpreter does.
  Infinities and NaN are left out: a timestamp is a finite number, and a result beyond
  the range of a double is not modelled.
\<close>

subsection \<open>Python primitives\<close>

type_synonym byte = "8 word"

datatype py_error = IndexError | ValueError | StructError | AttributeError | TypeError

definition err_bind :: "py_error + 'a \<Rightarrow> ('a \<Rightarrow> py_error + 'b) \<Rightarrow> py_error + 'b" where
  "err_bind m f = (case m of Inl e \<Rightarrow> Inl e | Inr x \<Rightarrow> f x)"

text \<open>\<open>b[i]\<close> on a bytes object, for \<open>i \<ge> 0\<close>: an int in 0..255, or IndexError.\<close>

definition getitem :: "byte list \<Rightarrow> nat \<Rightarrow> py_error + int" where
  "getitem b i = (if i < length b then Inr (uint (b ! i)) else Inl IndexError)"

text \<open>\<open>b[i:j]\<close> for \<open>0 \<le> i \<le> j\<close>: never raises, the slice is cut at the end of \<open>b\<close>.\<close>

definition slice :: "byte list \<Rightarrow> nat \<Rightarrow> nat \<Rightarrow> byte list" where
  "slice b i j = take (j - i) (drop i b)"

text \<open>
  \<open>struct.unpack\<close>: the formats used are \<open><L\<close> (4 bytes, little endian, unsigned),
  \<open><HHHH\<close> (four 2-byte little-endian unsigned values) and \<open>b\<close> (one signed byte). A
  buffer of another length raises \<open>struct.error\<close>.
\<close>

fun le_uint :: "byte list \<Rightarrow> int" where
  "le_uint [] = 0"
| "le_uint (x # xs) = uint x + 256 * le_uint xs"

definition unpack_L :: "byte list \<Rightarrow> py_error + int" where
  "unpack_L b = (if length b = 4 then Inr (le_uint b) else Inl StructError)"

definition unpack_HHHH :: "byte list \<Rightarrow> py_error + (int \<times> int \<times> int \<times> int)" where
  "unpack_HHHH b =
     (if length b = 8
      then Inr (le_uint (slice b 0 2), le_uint (slice b 2 4),
                le_uint (slice b 4 6), le_uint (slice b 6 8))
      else Inl StructError)"

definition unpack_b :: "byte list \<Rightarrow> py_error + int" where
  "unpack_b b = (case b of [x] \<Rightarrow> Inr (sint x) | _ \<Rightarrow> Inl StructError)"

text \<open>The truth value of an optional float: None and 0.0 are false.\<close>

definition truthy_float :: "real option \<Rightarrow> bool" where
  "truthy_float v = (case v of None \<Rightarrow> False | Some x \<Rightarrow> x \<noteq> 0)"

text \<open>
  Rounding of a real to the nearest double, ties to even. \<open>binade n x\<close> is the exponent
  \<open>e\<close> with \<open>2 ^ e \<le> x < 2 ^ (e + 1)\<close> for a positive \<open>x\<close>, found in at most \<open>n\<close>
  steps; the exponents of the doubles lie between -1074 and 1023, so 1100 steps are
  enough. Below \<open>2 ^ (- 1022)\<close> the spacing of the doubles stays \<open>2 ^ (- 1074)\<close>.
\<close>

fun binade :: "nat \<Rightarrow> real \<Rightarrow> int" where
  "binade 0 x = 0"
| "binade (Suc n) x =
     (if 2 \<le> x then binade n (x / 2) + 1
      else if x < 1 then binade n (2 * x) - 1
      else 0)"

definition pow2 :: "int \<Rightarrow> real" where
  "pow2 e = (if 0 \<le> e then 2 ^ nat e else 1 / 2 ^ nat (- e))"

definition round_half_even :: "real \<Rightarrow> int" where
  "round_half_even m =
     (let f = \<lfloor>m\<rfloor>; r = m - of_int f
      in if r < 1 / 2 then f
         else if 1 / 2 < r then f + 1
         else if even f then f else f + 1)"

definition float_round :: "real \<Rightarrow> real" where
  "float_round x =
     (if x = 0 then 0
      else let e = max (binade 1100 \<bar>x\<bar>) (- 1022);
               ulp = pow2 (e - 52)
           in sgn x * of_int (round_half_even (\<bar>x\<bar> / ulp)) * ulp)"

text \<open>
  \<open>x + y\<close> and \<open>x * y\<close> on floats, and \<open>i * y\<close> for an int \<open>i\<close>, which Python converts
  to a float first.
\<close>

definition float_add :: "real \<Rightarrow> real \<Rightarrow> real" where
  "float_add x y = float_round (x + y)"

definition float_mul :: "real \<Rightarrow> real \<Rightarrow> real" where
  "float_mul x y = float_round (x * y)"

definition float_of_int :: "int \<Rightarrow> real" where
  "float_of_int i = float_round (of_int i)"

subsection \<open>Collaborators that are imported by the decoder\<close>

text \<open>
  Modelled from the spec: \<open>sniffle_hw.PacketMessage\<close>, the Raw Packet Record. Its ten
  fields are the ones the copy constructor of \<open>DPacketMessage\<close> reads.
\<close>

record PacketMessage =
  ts :: real
  ts_epoch :: real
  aa :: int
  rssi :: int
  chan :: int
  phy :: int
  body :: "byte list"
  data_dir :: bool
  event :: int
  crc_rev :: bool

text \<open>Modelled from the spec: \<open>constants.BLE_ADV_AA\<close>, the reserved advertising access address.\<close>

definition BLE_ADV_AA :: int where
  "BLE_ADV_AA = 0x8E89BED6"

text \<open>
  Modelled from the spec: \<open>sniffer_state.SnifferState\<close>, the capture mode. The decoder
  distinguishes scanning and extended advertising from every other mode.
\<close>

datatype SnifferState = SCANNING | ADVERTISING_EXT | OTHER_STATE nat

text \<open>
  Modelled from the spec: \<open>crc_ble.rbit24\<close>, the reversal of the 24 bits of a CRC-init
  value. It works on an int; the call \<open>rbit24(None)\<close> is a TypeError, which the
  state update below writes out.
\<close>

fun rbit :: "nat \<Rightarrow> int \<Rightarrow> int" where
  "rbit 0 v = 0"
| "rbit (Suc n) v = (v mod 2) * 2 ^ n + rbit n (v div 2)"

definition rbit24 :: "int \<Rightarrow> int" where
  "rbit24 v = rbit 24 v"

subsection \<open>Helper objects of the extended header\<close>

text \<open>
  \<open>AdvDataInfo\<close> defines no \<open>__eq__\<close>, so \<open>==\<close> on two instances is object identity.
  An instance therefore carries the identity \<open>oid\<close> it was allocated with; the
  constructor receives it from its caller, who passes an identity that no live object
  has.
\<close>

record AdvDataInfo =
  oid :: nat
  did :: int
  sid :: int

definition AdvDataInfo_init :: "nat \<Rightarrow> byte list \<Rightarrow> py_error + AdvDataInfo" where
  "AdvDataInfo_init new adi =
     err_bind (getitem adi 0) (\<lambda>a0.
     err_bind (getitem adi 1) (\<lambda>a1.
       Inr \<lparr>oid = new, did = a0 + push_bit 8 (a1 AND 0x0F), sid = drop_bit 4 a1\<rparr>))"

text \<open>\<open>a == b\<close> where each side is an \<open>AdvDataInfo\<close> instance or None.\<close>

definition adi_eq :: "AdvDataInfo option \<Rightarrow> AdvDataInfo option \<Rightarrow> bool" where
  "adi_eq a b =
     (case (a, b) of
        (None, None) \<Rightarrow> True
      | (Some x, Some y) \<Rightarrow> oid x = oid y
      | _ \<Rightarrow> False)"

text \<open>The attributes \<open>chan\<close> and \<open>phy\<close> of \<open>AuxPtr\<close> are \<open>aux_chan\<close> and \<open>aux_phy\<close> here.\<close>

record AuxPtr =
  aux_chan :: int
  aux_phy :: int
  offsetUsec :: int

definition AuxPtr_init :: "byte list \<Rightarrow> py_error + AuxPtr" where
  "AuxPtr_init ptr =
     err_bind (getitem ptr 0) (\<lambda>p0.
     err_bind (getitem ptr 2) (\<lambda>p2.
     err_bind (getitem ptr 1) (\<lambda>p1.
       let offsetMult = (if p0 AND 0x80 \<noteq> 0 then 300 else 30);
           auxOffset = p1 + push_bit 8 (p2 AND 0x1F)
       in Inr \<lparr>aux_chan = p0 AND 0x3F, aux_phy = drop_bit 5 p2,
               offsetUsec = auxOffset * offsetMult\<rparr>)))"

subsection \<open>The PDU classes\<close>

datatype pdu_class =
    DPacketMessage
  | AdvertMessage
  | DataMessage
  | LlDataMessage
  | LlDataContMessage
  | LlControlMessage
  | AdvaMessage
  | AdvIndMessage
  | AdvNonconnIndMessage
  | ScanRspMessage
  | AdvScanIndMessage
  | AdvDirectIndMessage
  | ScanReqMessage
  | AuxScanReqMessage
  | ConnectIndMessage
  | AuxConnectReqMessage
  | AdvExtIndMessage
  | AuxAdvIndMessage
  | AuxScanRspMessage
  | AuxChainIndMessage
  | AuxConnectRspMessage

text \<open>The class of an instance followed by its base classes, as the class statements give them.\<close>

fun mro :: "pdu_class \<Rightarrow> pdu_class list" where
  "mro DPacketMessage = [DPacketMessage]"
| "mro AdvertMessage = [AdvertMessage, DPacketMessage]"
| "mro DataMessage = [DataMessage, DPacketMessage]"
| "mro LlDataMessage = [LlDataMessage, DataMessage, DPacketMessage]"
| "mro LlDataContMessage = [LlDataContMessage, DataMessage, DPacketMessage]"
| "mro LlControlMessage = [LlControlMessage, DataMessage, DPacketMessage]"
| "mro AdvaMessage = [AdvaMessage, AdvertMessage, DPacketMessage]"
| "mro AdvIndMessage = [AdvIndMessage, AdvaMessage, AdvertMessage, DPacketMessage]"
| "mro AdvNonconnIndMessage = [AdvNonconnIndMessage, AdvaMessage, AdvertMessage, DPacketMessage]"
| "mro ScanRspMessage = [ScanRspMessage, AdvaMessage, AdvertMessage, DPacketMessage]"
| "mro AdvScanIndMessage = [AdvScanIndMessage, AdvaMessage, AdvertMessage, DPacketMessage]"
| "mro AdvDirectIndMessage = [AdvDirectIndMessage, AdvertMessage, DPacketMessage]"
| "mro ScanReqMessage = [ScanReqMessage, AdvertMessage, DPacketMessage]"
| "mro AuxScanReqMessage = [AuxScanReqMessage, ScanReqMessage, AdvertMessage, DPacketMessage]"
| "mro ConnectIndMessage = [ConnectIndMessage, AdvertMessage, DPacketMessage]"
| "mro AuxConnectReqMessage =
     [AuxConnectReqMessage, ConnectIndMessage, AdvertMessage, DPacketMessage]"
| "mro AdvExtIndMessage = [AdvExtIndMessage, AdvertMessage, DPacketMessage]"
| "mro AuxAdvIndMessage = [AuxAdvIndMessage, AdvExtIndMessage, AdvertMessage, DPacketMessage]"
| "mro AuxScanRspMessage =
     [AuxScanRspMessage, AuxAdvIndMessage, AdvExtIndMessage, AdvertMessage, DPacketMessage]"
| "mro AuxChainIndMessage =
     [AuxChainIndMessage, AuxAdvIndMessage, AdvExtIndMessage, AdvertMessage, DPacketMessage]"
| "mro AuxConnectRspMessage =
     [AuxConnectRspMessage, AdvExtIndMessage, AdvertMessage, DPacketMessage]"

definition isinstance :: "pdu_class \<Rightarrow> pdu_class \<Rightarrow> bool" where
  "isinstance c k = (k \<in> set (mro c))"

text \<open>The class attribute \<open>pdutype\<close>; a class that does not set it inherits it.\<close>

fun pdutype :: "pdu_class \<Rightarrow> string" where
  "pdutype LlDataMessage = ''LL DATA''"
| "pdutype LlDataContMessage = ''LL DATA CONT''"
| "pdutype LlControlMessage = ''LL CONTROL''"
| "pdutype AdvIndMessage = ''ADV_IND''"
| "pdutype AdvNonconnIndMessage = ''ADV_NONCONN_IND''"
| "pdutype ScanRspMessage = ''SCAN_RSP''"
| "pdutype AdvScanIndMessage = ''ADV_SCAN_IND''"
| "pdutype AdvDirectIndMessage = ''ADV_DIRECT_IND''"
| "pdutype ScanReqMessage = ''SCAN_REQ''"
| "pdutype AuxScanReqMessage = ''AUX_SCAN_REQ''"
| "pdutype ConnectIndMessage = ''CONNECT_IND''"
| "pdutype AuxConnectReqMessage = ''AUX_CONNECT_REQ''"
| "pdutype AdvExtIndMessage = ''ADV_EXT_IND''"
| "pdutype AuxAdvIndMessage = ''AUX_ADV_IND''"
| "pdutype AuxScanRspMessage = ''AUX_SCAN_RSP''"
| "pdutype AuxChainIndMessage = ''AUX_CHAIN_IND''"
| "pdutype AuxConnectRspMessage = ''AUX_CONNECT_RSP''"
| "pdutype _ = ''RFU''"

text \<open>
  An instance of a PDU class: the ten fields of the record it was built from, its class,
  and the attributes that the constructors of the hierarchy assign.
  \<open>AdvMode\<close> is the one attribute that a constructor can leave unassigned while the
  instance is still returned; reading it then is an AttributeError.
\<close>

record DPacket = PacketMessage +
  cls :: pdu_class
  ChSel :: "int option"
  TxAdd :: "int option"
  RxAdd :: "int option"
  ad_length :: "int option"
  NESN :: "int option"
  SN :: "int option"
  MD :: "int option"
  data_length :: "int option"
  opcode :: "int option"
  AdvA :: "byte list option"
  TargetA :: "byte list option"
  ScanA :: "byte list option"
  InitA :: "byte list option"
  aa_conn :: "int option"
  CRCInit :: "int option"
  WinSize :: "int option"
  WinOffset :: "int option"
  Interval :: "int option"
  Latency :: "int option"
  Timeout :: "int option"
  ChM :: "byte list option"
  Hop :: "int option"
  SCA :: "int option"
  AdvMode :: "int option"
  CTEInfo :: "int option"
  AdvDataInfo :: "AdvDataInfo option"
  AuxPtr :: "AuxPtr option"
  SyncInfo :: "byte list option"
  TxPower :: "int option"
  ACAD :: "byte list option"

text \<open>Reading an attribute that may be unassigned.\<close>

definition getattr :: "'a option \<Rightarrow> py_error + 'a" where
  "getattr v = (case v of None \<Rightarrow> Inl AttributeError | Some x \<Rightarrow> Inr x)"

subsection \<open>Constructors\<close>

text \<open>\<open>DPacketMessage.__init__\<close>: the copy constructor. The first argument is the class being built.\<close>

definition DPacketMessage_init :: "pdu_class \<Rightarrow> PacketMessage \<Rightarrow> DPacket" where
  "DPacketMessage_init c pkt =
     \<lparr>ts = ts pkt, ts_epoch = ts_epoch pkt, aa = aa pkt, rssi = rssi pkt, chan = chan pkt,
      phy = phy pkt, body = body pkt, data_dir = data_dir pkt, event = event pkt,
      crc_rev = crc_rev pkt,
      cls = c,
      ChSel = None, TxAdd = None, RxAdd = None, ad_length = None,
      NESN = None, SN = None, MD = None, data_length = None, opcode = None,
      AdvA = None, TargetA = None, ScanA = None, InitA = None,
      aa_conn = None, CRCInit = None, WinSize = None, WinOffset = None, Interval = None,
      Latency = None, Timeout = None, ChM = None, Hop = None, SCA = None,
      AdvMode = None, CTEInfo = None, AdvDataInfo = None, AuxPtr = None, SyncInfo = None,
      TxPower = None, ACAD = None\<rparr>"

definition AdvertMessage_init :: "pdu_class \<Rightarrow> PacketMessage \<Rightarrow> py_error + DPacket" where
  "AdvertMessage_init c pkt =
     (let self = DPacketMessage_init c pkt in
      err_bind (getitem (body self) 0) (\<lambda>b0.
      err_bind (getitem (body self) 1) (\<lambda>b1.
        Inr (self\<lparr>ChSel := Some (drop_bit 5 b0 AND 1),
                  TxAdd := Some (drop_bit 6 b0 AND 1),
                  RxAdd := Some (drop_bit 7 b0 AND 1),
                  ad_length := Some b1\<rparr>))))"

definition DataMessage_init :: "pdu_class \<Rightarrow> PacketMessage \<Rightarrow> py_error + DPacket" where
  "DataMessage_init c pkt =
     (let self = DPacketMessage_init c pkt in
      err_bind (getitem (body self) 0) (\<lambda>b0.
      err_bind (getitem (body self) 1) (\<lambda>b1.
        Inr (self\<lparr>NESN := Some (drop_bit 2 b0 AND 1),
                  SN := Some (drop_bit 3 b0 AND 1),
                  MD := Some (drop_bit 4 b0 AND 1),
                  data_length := Some b1\<rparr>))))"

definition LlControlMessage_init :: "pdu_class \<Rightarrow> PacketMessage \<Rightarrow> py_error + DPacket" where
  "LlControlMessage_init c pkt =
     err_bind (DataMessage_init c pkt) (\<lambda>self.
     err_bind (getitem (body self) 2) (\<lambda>b2.
       Inr (self\<lparr>opcode := Some b2\<rparr>)))"

definition AdvaMessage_init :: "pdu_class \<Rightarrow> PacketMessage \<Rightarrow> py_error + DPacket" where
  "AdvaMessage_init c pkt =
     err_bind (AdvertMessage_init c pkt) (\<lambda>self.
       Inr (self\<lparr>AdvA := Some (slice (body self) 2 8)\<rparr>))"

definition AdvDirectIndMessage_init :: "pdu_class \<Rightarrow> PacketMessage \<Rightarrow> py_error + DPacket" where
  "AdvDirectIndMessage_init c pkt =
     err_bind (AdvertMessage_init c pkt) (\<lambda>self.
       Inr (self\<lparr>AdvA := Some (slice (body self) 2 8),
                 TargetA := Some (slice (body self) 8 14)\<rparr>))"

definition ScanReqMessage_init :: "pdu_class \<Rightarrow> PacketMessage \<Rightarrow> py_error + DPacket" where
  "ScanReqMessage_init c pkt =
     err_bind (AdvertMessage_init c pkt) (\<lambda>self.
       Inr (self\<lparr>ScanA := Some (slice (body self) 2 8),
                 AdvA := Some (slice (body self) 8 14)\<rparr>))"

definition ConnectIndMessage_init :: "pdu_class \<Rightarrow> PacketMessage \<Rightarrow> py_error + DPacket" where
  "ConnectIndMessage_init c pkt =
     err_bind (AdvertMessage_init c pkt) (\<lambda>self.
     err_bind (unpack_L (slice (body self) 14 18)) (\<lambda>aac.
     err_bind (getitem (body self) 18) (\<lambda>b18.
     err_bind (getitem (body self) 19) (\<lambda>b19.
     err_bind (getitem (body self) 20) (\<lambda>b20.
     err_bind (getitem (body self) 21) (\<lambda>b21.
     err_bind (unpack_HHHH (slice (body self) 22 30)) (\<lambda>(wo, iv, la, tmo).
     err_bind (getitem (body self) 35) (\<lambda>b35.
       Inr (self\<lparr>InitA := Some (slice (body self) 2 8),
                 AdvA := Some (slice (body self) 8 14),
                 aa_conn := Some aac,
                 CRCInit := Some (b18 OR push_bit 8 b19 OR push_bit 16 b20),
                 WinSize := Some b21,
                 WinOffset := Some wo, Interval := Some iv, Latency := Some la,
                 Timeout := Some tmo,
                 ChM := Some (slice (body self) 30 35),
                 Hop := Some (b35 AND 0x1F),
                 SCA := Some (drop_bit 5 b35)\<rparr>)))))))))"

subsection \<open>The extended advertising header\<close>

text \<open>
  The body of \<open>AdvExtIndMessage.__init__\<close> is a try block that assigns attributes of
  \<open>self\<close> one after the other; the handler prints and the constructor returns. A state
  of the walk is the exception raised so far (if any), \<open>self\<close> and the local \<open>hdrPos\<close>
  (0 until it is bound). After an exception no further statement of the block runs.
\<close>

type_synonym walk = "py_error option \<times> DPacket \<times> nat"

definition walk_then :: "walk \<Rightarrow> (DPacket \<Rightarrow> nat \<Rightarrow> walk) \<Rightarrow> walk" where
  "walk_then w f =
     (case w of
        (Some e, self, hdrPos) \<Rightarrow> (Some e, self, hdrPos)
      | (None, self, hdrPos) \<Rightarrow> f self hdrPos)"

definition walk_AdvA :: "int \<Rightarrow> DPacket \<Rightarrow> nat \<Rightarrow> walk" where
  "walk_AdvA hdrFlags self hdrPos =
     (if hdrFlags AND 0x01 \<noteq> 0
      then (None, self\<lparr>AdvA := Some (slice (body self) hdrPos (hdrPos + 6))\<rparr>, hdrPos + 6)
      else (None, self, hdrPos))"

definition walk_TargetA :: "int \<Rightarrow> DPacket \<Rightarrow> nat \<Rightarrow> walk" where
  "walk_TargetA hdrFlags self hdrPos =
     (if hdrFlags AND 0x02 \<noteq> 0
      then (None, self\<lparr>TargetA := Some (slice (body self) hdrPos (hdrPos + 6))\<rparr>, hdrPos + 6)
      else (None, self, hdrPos))"

definition walk_CTEInfo :: "int \<Rightarrow> DPacket \<Rightarrow> nat \<Rightarrow> walk" where
  "walk_CTEInfo hdrFlags self hdrPos =
     (if hdrFlags AND 0x04 \<noteq> 0
      then (case getitem (body self) hdrPos of
              Inl e \<Rightarrow> (Some e, self, hdrPos)
            | Inr v \<Rightarrow> (None, self\<lparr>CTEInfo := Some v\<rparr>, hdrPos + 1))
      else (None, self, hdrPos))"

definition walk_AdvDataInfo :: "nat \<Rightarrow> int \<Rightarrow> DPacket \<Rightarrow> nat \<Rightarrow> walk" where
  "walk_AdvDataInfo new hdrFlags self hdrPos =
     (if hdrFlags AND 0x08 \<noteq> 0
      then (case AdvDataInfo_init new (slice (body self) hdrPos (hdrPos + 2)) of
              Inl e \<Rightarrow> (Some e, self, hdrPos)
            | Inr v \<Rightarrow> (None, self\<lparr>AdvDataInfo := Some v\<rparr>, hdrPos + 2))
      else (None, self, hdrPos))"

definition walk_AuxPtr :: "int \<Rightarrow> DPacket \<Rightarrow> nat \<Rightarrow> walk" where
  "walk_AuxPtr hdrFlags self hdrPos =
     (if hdrFlags AND 0x10 \<noteq> 0
      then (case AuxPtr_init (slice (body self) hdrPos (hdrPos + 3)) of
              Inl e \<Rightarrow> (Some e, self, hdrPos)
            | Inr v \<Rightarrow> (None, self\<lparr>AuxPtr := Some v\<rparr>, hdrPos + 3))
      else (None, self, hdrPos))"

definition walk_SyncInfo :: "int \<Rightarrow> DPacket \<Rightarrow> nat \<Rightarrow> walk" where
  "walk_SyncInfo hdrFlags self hdrPos =
     (if hdrFlags AND 0x20 \<noteq> 0
      then (None, self\<lparr>SyncInfo := Some (slice (body self) hdrPos (hdrPos + 18))\<rparr>, hdrPos + 18)
      else (None, self, hdrPos))"

definition walk_TxPower :: "int \<Rightarrow> DPacket \<Rightarrow> nat \<Rightarrow> walk" where
  "walk_TxPower hdrFlags self hdrPos =
     (if hdrFlags AND 0x40 \<noteq> 0
      then (case unpack_b (slice (body self) hdrPos (hdrPos + 1)) of
              Inl e \<Rightarrow> (Some e, self, hdrPos)
            | Inr v \<Rightarrow> (None, self\<lparr>TxPower := Some v\<rparr>, hdrPos + 1))
      else (None, self, hdrPos))"

definition walk_ACAD :: "int \<Rightarrow> DPacket \<Rightarrow> nat \<Rightarrow> walk" where
  "walk_ACAD hdrBodyLen self hdrPos =
     (if int hdrPos - 3 < hdrBodyLen
      then (let ACADLen = nat (hdrBodyLen - (int hdrPos - 3))
            in (None, self\<lparr>ACAD := Some (slice (body self) hdrPos (hdrPos + ACADLen))\<rparr>,
                hdrPos + ACADLen))
      else (None, self, hdrPos))"

definition ext_header_walk :: "nat \<Rightarrow> DPacket \<Rightarrow> walk" where
  "ext_header_walk new self =
     (if length (body self) < 3 then (Some ValueError, self, 0)
      else
        let b2 = uint (body self ! 2);
            self1 = self\<lparr>AdvMode := Some (drop_bit 6 b2)\<rparr>;
            hdrBodyLen = b2 AND 0x3F
        in if int (length (body self)) < hdrBodyLen + 1 then (Some ValueError, self1, 0)
           else (case getitem (body self) 3 of
                   Inl e \<Rightarrow> (Some e, self1, 0)
                 | Inr hdrFlags \<Rightarrow>
                     walk_then (walk_then (walk_then (walk_then (walk_then (walk_then (walk_then
                       (walk_AdvA hdrFlags self1 4)
                       (walk_TargetA hdrFlags))
                       (walk_CTEInfo hdrFlags))
                       (walk_AdvDataInfo new hdrFlags))
                       (walk_AuxPtr hdrFlags))
                       (walk_SyncInfo hdrFlags))
                       (walk_TxPower hdrFlags))
                       (walk_ACAD hdrBodyLen)))"

text \<open>
  \<open>AdvExtIndMessage.__init__\<close>. The base constructor runs outside the try block; \<open>new\<close>
  is the identity of the \<open>AdvDataInfo\<close> instance this call allocates, if it allocates one.
\<close>

definition AdvExtIndMessage_init :: "pdu_class \<Rightarrow> nat \<Rightarrow> PacketMessage \<Rightarrow> py_error + DPacket" where
  "AdvExtIndMessage_init c new pkt =
     err_bind (AdvertMessage_init c pkt) (\<lambda>self.
       Inr (fst (snd (ext_header_walk new self))))"

text \<open>\<open>tc(pkt)\<close>: the constructor that class \<open>tc\<close> defines or inherits.\<close>

fun construct :: "pdu_class \<Rightarrow> nat \<Rightarrow> PacketMessage \<Rightarrow> py_error + DPacket" where
  "construct DPacketMessage new pkt = Inr (DPacketMessage_init DPacketMessage pkt)"
| "construct AdvertMessage new pkt = AdvertMessage_init AdvertMessage pkt"
| "construct DataMessage new pkt = DataMessage_init DataMessage pkt"
| "construct LlDataMessage new pkt = DataMessage_init LlDataMessage pkt"
| "construct LlDataContMessage new pkt = DataMessage_init LlDataContMessage pkt"
| "construct LlControlMessage new pkt = LlControlMessage_init LlControlMessage pkt"
| "construct AdvaMessage new pkt = AdvaMessage_init AdvaMessage pkt"
| "construct AdvIndMessage new pkt = AdvaMessage_init AdvIndMessage pkt"
| "construct AdvNonconnIndMessage new pkt = AdvaMessage_init AdvNonconnIndMessage pkt"
| "construct ScanRspMessage new pkt = AdvaMessage_init ScanRspMessage pkt"
| "construct AdvScanIndMessage new pkt = AdvaMessage_init AdvScanIndMessage pkt"
| "construct AdvDirectIndMessage new pkt = AdvDirectIndMessage_init AdvDirectIndMessage pkt"
| "construct ScanReqMessage new pkt = ScanReqMessage_init ScanReqMessage pkt"
| "construct AuxScanReqMessage new pkt = ScanReqMessage_init AuxScanReqMessage pkt"
| "construct ConnectIndMessage new pkt = ConnectIndMessage_init ConnectIndMessage pkt"
| "construct AuxConnectReqMessage new pkt = ConnectIndMessage_init AuxConnectReqMessage pkt"
| "construct AdvExtIndMessage new pkt = AdvExtIndMessage_init AdvExtIndMessage new pkt"
| "construct AuxAdvIndMessage new pkt = AdvExtIndMessage_init AuxAdvIndMessage new pkt"
| "construct AuxScanRspMessage new pkt = AdvExtIndMessage_init AuxScanRspMessage new pkt"
| "construct AuxChainIndMessage new pkt = AdvExtIndMessage_init AuxChainIndMessage new pkt"
| "construct AuxConnectRspMessage new pkt = AdvExtIndMessage_init AuxConnectRspMessage new pkt"

subsection \<open>Decoder state\<close>

text \<open>
  Modelled from the spec: \<open>decoder_state.SniffleDecoderState\<close>, with the fields that the
  decoder reads and writes. The pending chain is the tuple (advertising-data identifier,
  channel, deadline).
\<close>

record SniffleDecoderState =
  last_state :: SnifferState
  cur_aa :: "int option"
  crc_init_rev :: "int option"
  aux_pending_aa :: "int option"
  aux_pending_crci :: "int option"
  aux_pending_scan_rsp :: "real option"
  aux_pending_chain :: "(AdvDataInfo option \<times> int \<times> real) option"

subsection \<open>Dispatch\<close>

definition type_classes :: "pdu_class list" where
  "type_classes =
     [AdvIndMessage, AdvDirectIndMessage, AdvNonconnIndMessage, ScanReqMessage,
      ScanRspMessage, ConnectIndMessage, AdvScanIndMessage, AdvExtIndMessage]"

text \<open>
  The class \<open>tc\<close> that \<open>AdvertMessage.decode\<close> selects. With \<open>dstate\<close> None, reading
  \<open>dstate.aux_pending_scan_rsp\<close> is an AttributeError.
\<close>

definition AdvertMessage_select ::
  "PacketMessage \<Rightarrow> SniffleDecoderState option \<Rightarrow> py_error + pdu_class" where
  "AdvertMessage_select pkt dstate =
     err_bind (getitem (body pkt) 0) (\<lambda>b0.
       let pdu_type = b0 AND 0xF in
       if chan pkt \<ge> 37 then
         (if pdu_type < int (length type_classes)
          then Inr (type_classes ! nat pdu_type)
          else Inr AdvertMessage)
       else if pdu_type = 3 then Inr AuxScanReqMessage
       else if pdu_type = 5 then Inr AuxConnectReqMessage
       else if pdu_type = 7 then
         (case dstate of
            None \<Rightarrow> Inl AttributeError
          | Some st \<Rightarrow>
              if truthy_float (aux_pending_scan_rsp st) \<and>
                 (case aux_pending_scan_rsp st of Some d \<Rightarrow> ts pkt < d | None \<Rightarrow> False)
              then Inr AuxScanRspMessage
              else if (case aux_pending_chain st of
                         Some (adi, ch, dl) \<Rightarrow> chan pkt = ch \<and> ts pkt < dl
                       | None \<Rightarrow> False)
              then Inr AuxChainIndMessage
              else Inr AuxAdvIndMessage)
       else if pdu_type = 8 then Inr AuxConnectRspMessage
       else Inr AdvertMessage)"

definition AdvertMessage_decode ::
  "PacketMessage \<Rightarrow> SniffleDecoderState option \<Rightarrow> nat \<Rightarrow> py_error + DPacket" where
  "AdvertMessage_decode pkt dstate new =
     err_bind (AdvertMessage_select pkt dstate) (\<lambda>tc. construct tc new pkt)"

text \<open>\<open>DataMessage.decode\<close>: the index \<open>LLID\<close> is at most 3, inside the list of four classes.\<close>

definition data_type_classes :: "pdu_class list" where
  "data_type_classes = [DataMessage, LlDataContMessage, LlDataMessage, LlControlMessage]"

definition DataMessage_decode ::
  "PacketMessage \<Rightarrow> SniffleDecoderState option \<Rightarrow> nat \<Rightarrow> py_error + DPacket" where
  "DataMessage_decode pkt dstate new =
     err_bind (getitem (body pkt) 0) (\<lambda>b0.
       let LLID = b0 AND 0x3 in construct (data_type_classes ! nat LLID) new pkt)"

subsection \<open>State update\<close>

text \<open>
  \<open>update_state\<close> assigns to the fields of \<open>dstate\<close> in place, so an exception leaves
  the assignments made before it. The result is the exception (if any) and the state
  as the function leaves it. The if/elif chain comes first, then the clearing of the
  pending flags. The three deadlines are float sums: \<open>pkt.ts + 0.0005\<close>,
  \<open>pkt.ts + pkt.AuxPtr.offsetUsec*1E-6 + 0.0005\<close> (the product first, then the sums from
  the left) and \<open>pkt.ts + 0.001\<close>.
\<close>

definition update_rules ::
  "DPacket \<Rightarrow> SniffleDecoderState \<Rightarrow> py_error option \<times> SniffleDecoderState" where
  "update_rules pkt dstate =
     (if isinstance (cls pkt) ConnectIndMessage then
        (if chan pkt < 37 \<and> last_state dstate \<noteq> ADVERTISING_EXT then
           (case aa_conn pkt of
              None \<Rightarrow> (Some AttributeError, dstate)
            | Some a \<Rightarrow>
                let d1 = dstate\<lparr>aux_pending_aa := Some a\<rparr> in
                (case CRCInit pkt of
                   None \<Rightarrow> (Some AttributeError, d1)
                 | Some c \<Rightarrow> (None, d1\<lparr>aux_pending_crci := Some c\<rparr>)))
         else
           (case aa_conn pkt of
              None \<Rightarrow> (Some AttributeError, dstate)
            | Some a \<Rightarrow>
                let d1 = dstate\<lparr>cur_aa := Some a\<rparr> in
                (case CRCInit pkt of
                   None \<Rightarrow> (Some AttributeError, d1)
                 | Some c \<Rightarrow> (None, d1\<lparr>crc_init_rev := Some (rbit24 c)\<rparr>))))
      else if isinstance (cls pkt) AuxConnectRspMessage then
        (let d1 = dstate\<lparr>cur_aa := aux_pending_aa dstate\<rparr>;
             d2 = d1\<lparr>aux_pending_aa := None\<rparr>
         in (case aux_pending_crci d2 of
               None \<Rightarrow> (Some TypeError, d2)
             | Some c \<Rightarrow>
                 (None, d2\<lparr>crc_init_rev := Some (rbit24 c), aux_pending_crci := None\<rparr>)))
      else if isinstance (cls pkt) AuxScanReqMessage then
        (None, dstate\<lparr>aux_pending_scan_rsp :=
           Some (float_add (ts pkt) (float_round (5 / 10000)))\<rparr>)
      else if isinstance (cls pkt) AuxAdvIndMessage \<and> AuxPtr pkt \<noteq> None then
        (case AuxPtr pkt of
           None \<Rightarrow> (None, dstate)
         | Some p \<Rightarrow>
             (None, dstate\<lparr>aux_pending_chain :=
                Some (AdvDataInfo pkt, aux_chan p,
                      float_add
                        (float_add (ts pkt)
                           (float_mul (float_of_int (offsetUsec p)) (float_round (1 / 1000000))))
                        (float_round (5 / 10000)))\<rparr>))
      else if last_state dstate = SCANNING \<and> isinstance (cls pkt) AuxAdvIndMessage then
        (case AdvMode pkt of
           None \<Rightarrow> (Some AttributeError, dstate)
         | Some m \<Rightarrow>
             if m = 2
             then (None, dstate\<lparr>aux_pending_scan_rsp :=
                           Some (float_add (ts pkt) (float_round (1 / 1000)))\<rparr>)
             else (None, dstate))
      else (None, dstate))"

definition clear_pending :: "DPacket \<Rightarrow> SniffleDecoderState \<Rightarrow> SniffleDecoderState" where
  "clear_pending pkt dstate =
     (let d1 =
        (if truthy_float (aux_pending_scan_rsp dstate) then
           (if (case aux_pending_scan_rsp dstate of Some d \<Rightarrow> ts pkt > d | None \<Rightarrow> False)
               \<or> isinstance (cls pkt) AuxScanRspMessage
            then dstate\<lparr>aux_pending_scan_rsp := None\<rparr>
            else dstate)
         else dstate)
      in (case aux_pending_chain d1 of
            None \<Rightarrow> d1
          | Some (adi, ch, dl) \<Rightarrow>
              if ts pkt > dl then d1\<lparr>aux_pending_chain := None\<rparr>
              else if isinstance (cls pkt) AuxChainIndMessage \<and> chan pkt = ch
                      \<and> adi_eq (AdvDataInfo pkt) adi
              then d1\<lparr>aux_pending_chain := None\<rparr>
              else d1))"

definition update_state ::
  "DPacket \<Rightarrow> SniffleDecoderState \<Rightarrow> py_error option \<times> SniffleDecoderState" where
  "update_state pkt dstate =
     (case update_rules pkt dstate of
        (Some e, d1) \<Rightarrow> (Some e, d1)
      | (None, d1) \<Rightarrow> (None, clear_pending pkt d1))"

subsection \<open>The entry point\<close>

text \<open>
  \<open>DPacketMessage.decode\<close> returns the decoded instance, or, from the handler of its try
  block, the record it was given. The decoder state is an object of the caller, so the
  state after the call is part of the result; \<open>dstate\<close> None stays None.
\<close>

datatype decoded = Decoded DPacket | Undecoded PacketMessage

definition DPacketMessage_decode ::
  "PacketMessage \<Rightarrow> SniffleDecoderState option \<Rightarrow> nat \<Rightarrow> decoded \<times> SniffleDecoderState option" where
  "DPacketMessage_decode pkt dstate new =
     (case (if aa pkt = BLE_ADV_AA then AdvertMessage_decode pkt dstate new
            else DataMessage_decode pkt dstate new) of
        Inl e \<Rightarrow> (Undecoded pkt, dstate)
      | Inr dpkt \<Rightarrow>
          (case dstate of
             None \<Rightarrow> (Decoded dpkt, None)
           | Some st \<Rightarrow>
               (case update_state dpkt st of
                  (Some e, st') \<Rightarrow> (Undecoded pkt, Some st')
                | (None, st') \<Rightarrow> (Decoded dpkt, Some st'))))"

subsection \<open>Definitions used to state the properties\<close>

text \<open>
  The table of the primary advertising channels as the specification lists it, to be
  compared with the list indexing of \<open>AdvertMessage.decode\<close>: PDU types 0 to 7 name a
  kind, every other value is the generic advertising PDU.
\<close>

definition spec_primary_kind :: "int \<Rightarrow> pdu_class" where
  "spec_primary_kind n =
     (if n = 0 then AdvIndMessage
      else if n = 1 then AdvDirectIndMessage
      else if n = 2 then AdvNonconnIndMessage
      else if n = 3 then ScanReqMessage
      else if n = 4 then ScanRspMessage
      else if n = 5 then ConnectIndMessage
      else if n = 6 then AdvScanIndMessage
      else if n = 7 then AdvExtIndMessage
      else AdvertMessage)"

text \<open>The part of an instance that the copy constructor fills: the ten record fields, and the class.\<close>

definition hdr_of :: "DPacket \<Rightarrow> PacketMessage \<times> pdu_class" where
  "hdr_of d = (PacketMessage.truncate d, cls d)"

subsection \<open>Concrete records and states\<close>

text \<open>An ADV\_IND on channel 37: header byte 0x40 (type 0, TxAdd set), length 6, AdvA.\<close>

definition ex_adv_ind :: PacketMessage where
  "ex_adv_ind =
     \<lparr>ts = 0, ts_epoch = 0, aa = 0x8E89BED6, rssi = - 60, chan = 37, phy = 0,
      body = [0x40, 0x06, 0x01, 0x02, 0x03, 0x04, 0x05, 0x06],
      data_dir = False, event = 0, crc_rev = False\<rparr>"

text \<open>
  An extended advertising PDU of type 7 on secondary channel 10 at 1 s: header-body
  length 6, flags 0x18, an AdvDataInfo (DID 0x234, SID 1) and an AuxPtr (channel 5,
  offset 10 units of 30 microseconds).
\<close>

definition ex_aux_adv :: PacketMessage where
  "ex_aux_adv =
     \<lparr>ts = 1, ts_epoch = 0, aa = 0x8E89BED6, rssi = - 60, chan = 10, phy = 0,
      body = [0x07, 0x07, 0x06, 0x18, 0x34, 0x12, 0x05, 0x0A, 0x00],
      data_dir = False, event = 0, crc_rev = False\<rparr>"

text \<open>A decoder state with nothing pending and no connection.\<close>

definition ex_state :: SniffleDecoderState where
  "ex_state =
     \<lparr>last_state = OTHER_STATE 0, cur_aa = None, crc_init_rev = None,
      aux_pending_aa = None, aux_pending_crci = None,
      aux_pending_scan_rsp = None, aux_pending_chain = None\<rparr>"

text \<open>
  A CONNECT\_IND on channel 37 at 3 s: InitA, AdvA, access address 0x12345678, CRCInit
  0x030201, and the connection parameters; 36 bytes.
\<close>

definition ex_connect_ind :: PacketMessage where
  "ex_connect_ind =
     \<lparr>ts = 3, ts_epoch = 0, aa = 0x8E89BED6, rssi = - 60, chan = 37, phy = 0,
      body = [0x05, 0x22,
              0x01, 0x02, 0x03, 0x04, 0x05, 0x06,
              0x11, 0x12, 0x13, 0x14, 0x15, 0x16,
              0x78, 0x56, 0x34, 0x12,
              0x01, 0x02, 0x03,
              0x02, 0x03, 0x00, 0x18, 0x00, 0x00, 0x00, 0x48, 0x00,
              0xFF, 0xFF, 0xFF, 0xFF, 0x1F,
              0x05],
      data_dir = False, event = 0, crc_rev = False\<rparr>"

text \<open>An AUX\_CONNECT\_RSP on secondary channel 10 at 4 s, with AdvA and TargetA.\<close>

definition ex_aux_connect_rsp :: PacketMessage where
  "ex_aux_connect_rsp =
     \<lparr>ts = 4, ts_epoch = 0, aa = 0x8E89BED6, rssi = - 60, chan = 10, phy = 0,
      body = [0x08, 0x0E, 0x0D, 0x03,
              0x11, 0x12, 0x13, 0x14, 0x15, 0x16,
              0x01, 0x02, 0x03, 0x04, 0x05, 0x06],
      data_dir = False, event = 0, crc_rev = False\<rparr>"

text \<open>
  A PDU of type 7 on secondary channel 5 at 2049/2048 s (a double, about 1.0005 s)
  whose header holds an AdvDataInfo with DID 0x234 and SID 1, as \<open>ex_aux_adv\<close> has,
  and no AuxPtr.
\<close>

definition ex_aux_chain :: PacketMessage where
  "ex_aux_chain =
     \<lparr>ts = 2049 / 2048, ts_epoch = 0, aa = 0x8E89BED6, rssi = - 60, chan = 5, phy = 0,
      body = [0x07, 0x04, 0x03, 0x08, 0x34, 0x12],
      data_dir = False, event = 0, crc_rev = False\<rparr>"

text \<open>An AUX\_SCAN\_REQ on secondary channel 10 at 1 s, with ScanA and AdvA.\<close>

definition ex_aux_scan_req :: PacketMessage where
  "ex_aux_scan_req =
     \<lparr>ts = 1, ts_epoch = 0, aa = 0x8E89BED6, rssi = - 60, chan = 10, phy = 0,
      body = [0x03, 0x0C,
              0x01, 0x02, 0x03, 0x04, 0x05, 0x06,
              0x11, 0x12, 0x13, 0x14, 0x15, 0x16],
      data_dir = False, event = 0, crc_rev = False\<rparr>"

text \<open>The connection fields of a state, and the class of a result, to state outcomes briefly.\<close>

definition view_state ::
  "SniffleDecoderState \<Rightarrow> int option \<times> int option \<times> int option \<times> int option" where
  "view_state s = (cur_aa s, crc_init_rev s, aux_pending_aa s, aux_pending_crci s)"

definition view_result :: "decoded \<Rightarrow> pdu_class option" where
  "view_result r = (case r of Decoded d \<Rightarrow> Some (cls d) | Undecoded p \<Rightarrow> None)"

text \<open>
  Two records with malformed extended headers. In \<open>ex_ext_trunc\<close> the declared
  header-body length is 1 (the flags byte alone), the flags announce an AdvA, and two
  bytes follow. In \<open>ex_ext_short\<close> the declared header-body length is 2 and only the
  flags byte is there.
\<close>

definition ex_ext_trunc :: PacketMessage where
  "ex_ext_trunc =
     \<lparr>ts = 5, ts_epoch = 0, aa = 0x8E89BED6, rssi = - 60, chan = 10, phy = 0,
      body = [0x07, 0x04, 0x01, 0x01, 0xAA, 0xBB],
      data_dir = False, event = 0, crc_rev = False\<rparr>"

definition ex_ext_short :: PacketMessage where
  "ex_ext_short =
     \<lparr>ts = 5, ts_epoch = 0, aa = 0x8E89BED6, rssi = - 60, chan = 10, phy = 0,
      body = [0x07, 0x02, 0x02, 0x00],
      data_dir = False, event = 0, crc_rev = False\<rparr>"

text \<open>
  The optional fields of the extended header in walk order, as present or absent; the
  seven presence bits of the flags byte in the same order; the flags byte of a body (0
  when the body has none); and the number of body bytes that the populated fields hold.
\<close>

definition ext_present :: "DPacket \<Rightarrow> bool list" where
  "ext_present d =
     [AdvA d \<noteq> None, TargetA d \<noteq> None, CTEInfo d \<noteq> None, AdvDataInfo d \<noteq> None,
      AuxPtr d \<noteq> None, SyncInfo d \<noteq> None, TxPower d \<noteq> None, ACAD d \<noteq> None]"

definition ext_flagged :: "int \<Rightarrow> bool list" where
  "ext_flagged hdrFlags =
     [hdrFlags AND 0x01 \<noteq> 0, hdrFlags AND 0x02 \<noteq> 0, hdrFlags AND 0x04 \<noteq> 0,
      hdrFlags AND 0x08 \<noteq> 0, hdrFlags AND 0x10 \<noteq> 0, hdrFlags AND 0x20 \<noteq> 0,
      hdrFlags AND 0x40 \<noteq> 0]"

definition ext_flags :: "byte list \<Rightarrow> int" where
  "ext_flags b = (case getitem b 3 of Inr f \<Rightarrow> f | Inl e \<Rightarrow> 0)"

definition olen :: "byte list option \<Rightarrow> nat" where
  "olen v = (case v of None \<Rightarrow> 0 | Some x \<Rightarrow> length x)"

definition osize :: "nat \<Rightarrow> 'a option \<Rightarrow> nat" where
  "osize n v = (case v of None \<Rightarrow> 0 | Some x \<Rightarrow> n)"

definition ext_stored :: "DPacket \<Rightarrow> nat" where
  "ext_stored d =
     olen (AdvA d) + olen (TargetA d) + osize 1 (CTEInfo d) + osize 2 (AdvDataInfo d) +
     osize 3 (AuxPtr d) + olen (SyncInfo d) + osize 1 (TxPower d) + olen (ACAD d)"

text \<open>What a walk leaves: the exception, AdvMode, AdvA, ACAD, \<open>hdrPos\<close> and the presence list.\<close>

definition view_walk ::
  "walk \<Rightarrow> py_error option \<times> int option \<times> byte list option \<times> byte list option \<times> nat \<times> bool list" where
  "view_walk w = (case w of (e, d, hdrPos) \<Rightarrow> (e, AdvMode d, AdvA d, ACAD d, hdrPos, ext_present d))"

text \<open>
  The invariant of the walk after its first \<open>n\<close> fields, for the flags \<open>fl\<close>: the
  populated fields are the flagged ones among the first \<open>n\<close> (among the first \<open>k\<close>, for
  some \<open>k\<close> up to \<open>n\<close>, once an exception was raised), and they hold no more bytes than
  the body has between offset 4 and \<open>hdrPos\<close>.
\<close>

definition walk_inv :: "byte list \<Rightarrow> pdu_class \<Rightarrow> bool list \<Rightarrow> nat \<Rightarrow> walk \<Rightarrow> bool" where
  "walk_inv b c fl n w =
     (case w of (e, self, pos) \<Rightarrow>
        body self = b \<and> cls self = c \<and>
        ext_stored self \<le> min pos (length b) - 4 \<and>
        (case e of
           None \<Rightarrow> 4 \<le> pos \<and> ext_present self = take n fl @ replicate (8 - n) False
         | Some x \<Rightarrow> (\<exists>k\<le>n. ext_present self = take k fl @ replicate (8 - k) False)))"

text \<open>
  Two more records of type 7 on secondary channel 10. In \<open>ex_ext_abort\<close> (11 bytes,
  declared header-body length 1) the flags announce an AdvA and an AdvDataInfo: the AdvA
  fills the offsets 4 to 9, and one byte is left for the two of the AdvDataInfo.
  \<open>ex_ext_two\<close> has the two header bytes and nothing else.
\<close>

definition ex_ext_abort :: PacketMessage where
  "ex_ext_abort =
     \<lparr>ts = 5, ts_epoch = 0, aa = 0x8E89BED6, rssi = - 60, chan = 10, phy = 0,
      body = [0x07, 0x09, 0x01, 0x09, 0x11, 0x12, 0x13, 0x14, 0x15, 0x16, 0x34],
      data_dir = False, event = 0, crc_rev = False\<rparr>"

definition ex_ext_two :: PacketMessage where
  "ex_ext_two =
     \<lparr>ts = 5, ts_epoch = 0, aa = 0x8E89BED6, rssi = - 60, chan = 10, phy = 0,
      body = [0x07, 0x00],
      data_dir = False, event = 0, crc_rev = False\<rparr>"

text \<open>
  The outcome of the walk, stated on the body alone. The seven flagged fields have the
  sizes 6, 6, 1, 2, 3, 18 and 1, and field \<open>i\<close> starts at \<open>ext_offset F i\<close>: offset 4
  plus the sizes of the flagged fields before it. Four of the fields are read by index
  or decoded from a fixed number of bytes (CTEInfo, AdvDataInfo, AuxPtr, TxPower): such
  a read fails when the body ends before the field does. The other three are slices.
  \<open>ext_abort_at\<close> is the first field whose read fails, 7 when none does, and
  \<open>ext_hdr_len\<close> is the declared header-body length (0 when the body has no such byte).
  \<open>ext_expected\<close> is the presence list in walk order: no field when the body has no
  flags byte or the declared length exceeds the bytes after offset 3; otherwise the
  flagged fields before the abort point, and ACAD when no read failed and the declared
  length reaches past the last flagged field.
\<close>

definition ext_sizes :: "nat list" where
  "ext_sizes = [6, 6, 1, 2, 3, 18, 1]"

definition ext_indexed :: "bool list" where
  "ext_indexed = [False, False, True, True, True, False, True]"

definition ext_offset :: "bool list \<Rightarrow> nat \<Rightarrow> nat" where
  "ext_offset F n = 4 + sum_list (map (\<lambda>i. if F ! i then ext_sizes ! i else 0) [0..<n])"

definition ext_read_fails :: "bool list \<Rightarrow> nat \<Rightarrow> nat \<Rightarrow> bool" where
  "ext_read_fails F len i = (F ! i \<and> ext_indexed ! i \<and> len < ext_offset F i + ext_sizes ! i)"

definition ext_abort_at :: "bool list \<Rightarrow> nat \<Rightarrow> nat" where
  "ext_abort_at F len = (case find (ext_read_fails F len) [0..<7] of None \<Rightarrow> 7 | Some i \<Rightarrow> i)"

definition ext_hdr_len :: "byte list \<Rightarrow> int" where
  "ext_hdr_len b = (case getitem b 2 of Inr x \<Rightarrow> x AND 0x3F | Inl e \<Rightarrow> 0)"

definition ext_expected :: "byte list \<Rightarrow> bool list" where
  "ext_expected b =
     (if length b < 4 \<or> int (length b) - 3 < ext_hdr_len b then replicate 8 False
      else let F = ext_flagged (ext_flags b); k = ext_abort_at F (length b)
           in take k F @ replicate (7 - k) False @
              [k = 7 \<and> int (ext_offset F 7) - 3 < ext_hdr_len b])"

text \<open>
  The value of each populated field: the bytes of the body at the offset of the field,
  cut at the end of the body for a slice, and decoded as the code decodes them.
\<close>

definition ext_values :: "nat \<Rightarrow> byte list \<Rightarrow> bool list \<Rightarrow> int \<Rightarrow> DPacket \<Rightarrow> bool" where
  "ext_values new b F hl d =
     ((case AdvA d of None \<Rightarrow> True
       | Some v \<Rightarrow> v = slice b (ext_offset F 0) (ext_offset F 0 + 6)) \<and>
      (case TargetA d of None \<Rightarrow> True
       | Some v \<Rightarrow> v = slice b (ext_offset F 1) (ext_offset F 1 + 6)) \<and>
      (case CTEInfo d of None \<Rightarrow> True
       | Some v \<Rightarrow> getitem b (ext_offset F 2) = Inr v) \<and>
      (case AdvDataInfo d of None \<Rightarrow> True
       | Some v \<Rightarrow> AdvDataInfo_init new (slice b (ext_offset F 3) (ext_offset F 3 + 2)) = Inr v) \<and>
      (case AuxPtr d of None \<Rightarrow> True
       | Some v \<Rightarrow> AuxPtr_init (slice b (ext_offset F 4) (ext_offset F 4 + 3)) = Inr v) \<and>
      (case SyncInfo d of None \<Rightarrow> True
       | Some v \<Rightarrow> v = slice b (ext_offset F 5) (ext_offset F 5 + 18)) \<and>
      (case TxPower d of None \<Rightarrow> True
       | Some v \<Rightarrow> unpack_b (slice b (ext_offset F 6) (ext_offset F 6 + 1)) = Inr v) \<and>
      (case ACAD d of None \<Rightarrow> True
       | Some v \<Rightarrow> v = slice b (ext_offset F 7)
                          (ext_offset F 7 + nat (hl - (int (ext_offset F 7) - 3)))))"

text \<open>
  The second invariant of the walk after its first \<open>n\<close> fields: the values of the
  populated fields, and the position. Without an exception \<open>hdrPos\<close> is the offset of
  field \<open>n\<close> and no read failed so far; with one, the walk stopped at a field \<open>k\<close> below
  \<open>n\<close> whose read fails, the first such, and the fields from \<open>k\<close> on are absent.
\<close>

definition stopped_at :: "bool list \<Rightarrow> nat \<Rightarrow> DPacket \<Rightarrow> nat \<Rightarrow> bool" where
  "stopped_at F len self k =
     (ext_present self = take k (F @ [False]) @ replicate (8 - k) False \<and>
      ext_read_fails F len k \<and> (\<forall>i<k. \<not> ext_read_fails F len i))"

definition walk_trk :: "nat \<Rightarrow> byte list \<Rightarrow> bool list \<Rightarrow> int \<Rightarrow> nat \<Rightarrow> walk \<Rightarrow> bool" where
  "walk_trk new b F hl n w =
     (case w of (e, self, pos) \<Rightarrow>
        ext_values new b F hl self \<and>
        (case e of
           None \<Rightarrow> pos = ext_offset F n \<and> (\<forall>i<n. \<not> ext_read_fails F (length b) i)
         | Some x \<Rightarrow>
             (\<exists>k<n. stopped_at F (length b) self k)))"

definition walk_both ::
  "nat \<Rightarrow> byte list \<Rightarrow> pdu_class \<Rightarrow> bool list \<Rightarrow> int \<Rightarrow> nat \<Rightarrow> walk \<Rightarrow> bool" where
  "walk_both new b c F hl n w = (walk_inv b c (F @ [False]) n w \<and> walk_trk new b F hl n w)"

section \<open>Properties\<close>

subsection \<open>Basic facts\<close>

lemma err_bind_simps [simp]:
  "err_bind (Inl e) f = Inl e"
  "err_bind (Inr x) f = f x"
  by (simp_all add: err_bind_def)

lemma flag_bit7: "(uint (p0::byte) AND 0x80 = 0) = (\<not> bit p0 7)"
proof -
  have "(uint p0 AND 2 ^ 7 = 0) = (\<not> bit (uint p0) 7)"
    by (rule and_exp_eq_0_iff_not_bit)
  then show ?thesis
    by (simp add: bit_uint_iff)
qed

lemma and_0x1F: "(x::int) AND 0x1F = x mod 32"
proof -
  have "(0x1F::int) = mask 5" by (simp add: mask_eq_exp_minus_1)
  then show ?thesis by (simp only: flip: take_bit_eq_mask) (simp add: take_bit_eq_mod)
qed

lemma aux_offset_13_bits:
  "uint (p1::byte) + push_bit 8 (uint (p2::byte) AND 0x1F) = take_bit 13 (uint p1 + 256 * uint p2)"
proof -
  have b: "0 \<le> uint p1" "uint p1 < 256" using uint_bounded [of p1] by simp_all
  have "(uint p1 + 256 * uint p2) mod (256 * 32)
          = 256 * ((uint p1 + 256 * uint p2) div 256 mod 32) + (uint p1 + 256 * uint p2) mod 256"
    by (rule zmod_zmult2_eq) simp
  also have "(uint p1 + 256 * uint p2) div 256 = uint p2" using b by simp
  also have "(uint p1 + 256 * uint p2) mod 256 = uint p1" using b by simp
  finally have "take_bit 13 (uint p1 + 256 * uint p2) = 256 * (uint p2 mod 32) + uint p1"
    by (simp add: take_bit_eq_mod)
  then show ?thesis
    unfolding and_0x1F by (simp add: push_bit_eq_mult)
qed

text \<open>
  The rounding on known values: 1, 0.1, \<open>0.1 + 0.2\<close> (which is not the double 0.3), two
  ties, an int beyond 53 bits, the largest \<open>offsetUsec\<close>, and \<open>300*1E-6\<close>.
\<close>

lemma float_round_examples:
  "float_round 1 = 1 \<and>
   float_round (1 / 10) = 3602879701896397 / 36028797018963968 \<and>
   float_add (float_round (1 / 10)) (float_round (2 / 10)) = 1351079888211149 / 4503599627370496 \<and>
   float_round (3 / 10) = 5404319552844595 / 18014398509481984 \<and>
   float_round (1 + 1 / 2 ^ 53) = 1 \<and>
   float_round (1 + 3 / 2 ^ 53) = 1 + 2 / 2 ^ 52 \<and>
   float_round (2 ^ 53 + 1) = 2 ^ 53 \<and>
   float_of_int 2457300 = 2457300 \<and>
   float_mul (float_of_int 300) (float_round (1 / 1000000)) = 5534023222112865 / 18446744073709551616"
  by code_simp

subsection \<open>The auxiliary pointer\<close>

text \<open>
  C8. A pointer of three bytes always decodes. Its offset in microseconds is the 13-bit
  offset field (the low 13 bits of the little-endian value of bytes 1 and 2) times 300
  when bit 7 of byte 0 is set and times 30 when it is clear. With the field at 10 the
  offset is 3000 with the flag and 300 without it.
\<close>

theorem AuxPtr_offsetUsec:
  "(\<exists>a. AuxPtr_init [p0, p1, p2] = Inr a \<and>
        offsetUsec a = take_bit 13 (uint p1 + 256 * uint p2) * (if bit p0 7 then 300 else 30))
   \<and> map_sum id offsetUsec (AuxPtr_init [0x80, 10, 0]) = Inr 3000
   \<and> map_sum id offsetUsec (AuxPtr_init [0x00, 10, 0]) = Inr 300"
proof (intro conjI)
  have "AuxPtr_init [p0, p1, p2] =
          Inr \<lparr>aux_chan = uint p0 AND 0x3F, aux_phy = drop_bit 5 (uint p2),
               offsetUsec = (uint p1 + push_bit 8 (uint p2 AND 0x1F))
                            * (if uint p0 AND 0x80 \<noteq> 0 then 300 else 30)\<rparr>"
    by (simp add: AuxPtr_init_def getitem_def Let_def del: push_bit_and)
  then show "\<exists>a. AuxPtr_init [p0, p1, p2] = Inr a \<and>
        offsetUsec a = take_bit 13 (uint p1 + 256 * uint p2) * (if bit p0 7 then 300 else 30)"
    by (simp add: flag_bit7 aux_offset_13_bits del: push_bit_and)
  show "map_sum id offsetUsec (AuxPtr_init [0x80, 10, 0]) = Inr 3000"
    by (simp add: AuxPtr_init_def getitem_def)
  show "map_sum id offsetUsec (AuxPtr_init [0x00, 10, 0]) = Inr 300"
    by (simp add: AuxPtr_init_def getitem_def)
qed

subsection \<open>Constructors keep the record and the class\<close>

lemma hdr_of_DPacketMessage_init: "hdr_of (DPacketMessage_init c pkt) = (pkt, c)"
  by (simp add: hdr_of_def DPacketMessage_init_def PacketMessage.truncate_def)

lemma AdvertMessage_init_eq:
  "AdvertMessage_init c pkt =
     (if length (body pkt) < 2 then Inl IndexError
      else Inr ((DPacketMessage_init c pkt)
             \<lparr>ChSel := Some (drop_bit 5 (uint (body pkt ! 0)) AND 1),
              TxAdd := Some (drop_bit 6 (uint (body pkt ! 0)) AND 1),
              RxAdd := Some (drop_bit 7 (uint (body pkt ! 0)) AND 1),
              ad_length := Some (uint (body pkt ! 1))\<rparr>))"
  by (auto simp: AdvertMessage_init_def getitem_def Let_def DPacketMessage_init_def)

lemma AdvertMessage_init_hdr:
  "AdvertMessage_init c pkt = Inr d \<Longrightarrow> hdr_of d = (pkt, c) \<and> body d = body pkt"
  by (auto simp: AdvertMessage_init_eq hdr_of_def DPacketMessage_init_def PacketMessage.truncate_def split: if_splits)

lemma DataMessage_init_hdr:
  "DataMessage_init c pkt = Inr d \<Longrightarrow> hdr_of d = (pkt, c) \<and> body d = body pkt"
  by (auto simp: DataMessage_init_def getitem_def Let_def hdr_of_def DPacketMessage_init_def PacketMessage.truncate_def split: if_splits)

lemma hdr_of_upd [simp]:
  "hdr_of (d\<lparr>AdvA := a\<rparr>) = hdr_of d"
  "hdr_of (d\<lparr>TargetA := a\<rparr>) = hdr_of d"
  "hdr_of (d\<lparr>ScanA := a\<rparr>) = hdr_of d"
  "hdr_of (d\<lparr>InitA := a\<rparr>) = hdr_of d"
  "hdr_of (d\<lparr>opcode := i\<rparr>) = hdr_of d"
  "hdr_of (d\<lparr>aa_conn := i\<rparr>) = hdr_of d"
  "hdr_of (d\<lparr>CRCInit := i\<rparr>) = hdr_of d"
  "hdr_of (d\<lparr>WinSize := i\<rparr>) = hdr_of d"
  "hdr_of (d\<lparr>WinOffset := i\<rparr>) = hdr_of d"
  "hdr_of (d\<lparr>Interval := i\<rparr>) = hdr_of d"
  "hdr_of (d\<lparr>Latency := i\<rparr>) = hdr_of d"
  "hdr_of (d\<lparr>Timeout := i\<rparr>) = hdr_of d"
  "hdr_of (d\<lparr>ChM := a\<rparr>) = hdr_of d"
  "hdr_of (d\<lparr>Hop := i\<rparr>) = hdr_of d"
  "hdr_of (d\<lparr>SCA := i\<rparr>) = hdr_of d"
  "hdr_of (d\<lparr>AdvMode := i\<rparr>) = hdr_of d"
  "hdr_of (d\<lparr>CTEInfo := i\<rparr>) = hdr_of d"
  "hdr_of (d\<lparr>AdvDataInfo := adi\<rparr>) = hdr_of d"
  "hdr_of (d\<lparr>AuxPtr := p\<rparr>) = hdr_of d"
  "hdr_of (d\<lparr>SyncInfo := a\<rparr>) = hdr_of d"
  "hdr_of (d\<lparr>TxPower := i\<rparr>) = hdr_of d"
  "hdr_of (d\<lparr>ACAD := a\<rparr>) = hdr_of d"
  by (simp_all add: hdr_of_def PacketMessage.truncate_def)

lemma LlControlMessage_init_hdr:
  "LlControlMessage_init c pkt = Inr d \<Longrightarrow> hdr_of d = (pkt, c)"
  by (auto simp: LlControlMessage_init_def err_bind_def getitem_def
           split: sum.splits if_splits dest: DataMessage_init_hdr)

lemma AdvaMessage_init_hdr:
  "AdvaMessage_init c pkt = Inr d \<Longrightarrow> hdr_of d = (pkt, c)"
  by (auto simp: AdvaMessage_init_def err_bind_def split: sum.splits dest: AdvertMessage_init_hdr)

lemma AdvDirectIndMessage_init_hdr:
  "AdvDirectIndMessage_init c pkt = Inr d \<Longrightarrow> hdr_of d = (pkt, c)"
  by (auto simp: AdvDirectIndMessage_init_def err_bind_def split: sum.splits dest: AdvertMessage_init_hdr)

lemma ScanReqMessage_init_hdr:
  "ScanReqMessage_init c pkt = Inr d \<Longrightarrow> hdr_of d = (pkt, c)"
  by (auto simp: ScanReqMessage_init_def err_bind_def split: sum.splits dest: AdvertMessage_init_hdr)

lemma ConnectIndMessage_init_hdr:
  "ConnectIndMessage_init c pkt = Inr d \<Longrightarrow> hdr_of d = (pkt, c)"
  by (auto simp: ConnectIndMessage_init_def err_bind_def split: sum.splits prod.splits dest: AdvertMessage_init_hdr)


lemma walk_then_hdr:
  assumes "hdr_of (fst (snd w)) = h"
    and "\<And>self pos. hdr_of self = h \<Longrightarrow> hdr_of (fst (snd (f self pos))) = h"
  shows "hdr_of (fst (snd (walk_then w f))) = h"
  using assms by (cases w) (auto simp: walk_then_def split: option.splits)

lemma walk_steps_hdr:
  "hdr_of (fst (snd (walk_AdvA fl self pos))) = hdr_of self"
  "hdr_of (fst (snd (walk_TargetA fl self pos))) = hdr_of self"
  "hdr_of (fst (snd (walk_CTEInfo fl self pos))) = hdr_of self"
  "hdr_of (fst (snd (walk_AdvDataInfo new fl self pos))) = hdr_of self"
  "hdr_of (fst (snd (walk_AuxPtr fl self pos))) = hdr_of self"
  "hdr_of (fst (snd (walk_SyncInfo fl self pos))) = hdr_of self"
  "hdr_of (fst (snd (walk_TxPower fl self pos))) = hdr_of self"
  "hdr_of (fst (snd (walk_ACAD hl self pos))) = hdr_of self"
  by (simp_all add: walk_AdvA_def walk_TargetA_def walk_CTEInfo_def walk_AdvDataInfo_def
        walk_AuxPtr_def walk_SyncInfo_def walk_TxPower_def walk_ACAD_def Let_def
        split: sum.splits)

lemma ext_header_walk_hdr: "hdr_of (fst (snd (ext_header_walk new self))) = hdr_of self"
  unfolding ext_header_walk_def Let_def
  by (auto split: sum.splits intro!: walk_then_hdr simp: walk_steps_hdr)

lemma AdvExtIndMessage_init_hdr:
  "AdvExtIndMessage_init c new pkt = Inr d \<Longrightarrow> hdr_of d = (pkt, c)"
  by (auto simp: AdvExtIndMessage_init_def err_bind_def ext_header_walk_hdr
           split: sum.splits dest: AdvertMessage_init_hdr)

lemma construct_hdr: "construct c new pkt = Inr d \<Longrightarrow> hdr_of d = (pkt, c)"
  by (cases c)
     (auto simp: hdr_of_DPacketMessage_init
           dest: AdvertMessage_init_hdr DataMessage_init_hdr LlControlMessage_init_hdr
                 AdvaMessage_init_hdr AdvDirectIndMessage_init_hdr ScanReqMessage_init_hdr
                 ConnectIndMessage_init_hdr AdvExtIndMessage_init_hdr)

lemma AdvExtIndMessage_init_ok:
  "2 \<le> length (body pkt) \<Longrightarrow> \<exists>d. AdvExtIndMessage_init c new pkt = Inr d"
  by (simp add: AdvExtIndMessage_init_def AdvertMessage_init_eq)

lemma slice_length: "length (slice b i j) = min (j - i) (length b - i)"
  by (simp add: slice_def)

lemma ConnectIndMessage_init_ok:
  "36 \<le> length (body pkt) \<Longrightarrow> \<exists>d. ConnectIndMessage_init c pkt = Inr d"
  by (simp add: ConnectIndMessage_init_def AdvertMessage_init_eq unpack_L_def unpack_HHHH_def
         getitem_def slice_length DPacketMessage_init_def)

lemma ConnectIndMessage_init_fail:
  "length (body pkt) < 36 \<Longrightarrow> \<exists>e. ConnectIndMessage_init c pkt = Inl e"
  by (auto simp add: ConnectIndMessage_init_def AdvertMessage_init_eq unpack_L_def unpack_HHHH_def
         getitem_def slice_length DPacketMessage_init_def err_bind_def split: sum.splits)

subsection \<open>Dispatch on the primary channels\<close>

lemma nibble_range: "0 \<le> uint (b::byte) AND 0xF \<and> uint b AND 0xF < 16"
proof -
  have "uint b AND 0xF \<le> 0xF" by (rule AND_upper2) simp
  moreover have "0 \<le> uint b AND 0xF" by simp
  ultimately show ?thesis by simp
qed

lemma primary_table:
  "list_all (\<lambda>i. type_classes ! i = spec_primary_kind (int i)) [0..<8]"
  by code_simp

lemma select_primary:
  assumes "37 \<le> chan pkt" "body pkt = b0 # rest"
  shows "AdvertMessage_select pkt dstate = Inr (spec_primary_kind (uint b0 AND 0xF))"
proof -
  let ?n = "uint b0 AND 0xF"
  have sel: "AdvertMessage_select pkt dstate =
          (if ?n < 8 then Inr (type_classes ! nat ?n) else Inr AdvertMessage)"
    using assms by (simp add: AdvertMessage_select_def getitem_def type_classes_def Let_def)
  have r: "0 \<le> ?n" using nibble_range [of b0] by simp
  show ?thesis
  proof (cases "?n < 8")
    case True
    with r have "nat ?n \<in> set [0..<8]" by simp
    with primary_table have "type_classes ! nat ?n = spec_primary_kind (int (nat ?n))"
      unfolding list_all_iff by blast
    with r True show ?thesis by (simp add: sel)
  next
    case False
    then show ?thesis by (simp add: sel spec_primary_kind_def)
  qed
qed

lemma AdvaMessage_init_ok: "2 \<le> length (body pkt) \<Longrightarrow> \<exists>d. AdvaMessage_init c pkt = Inr d"
  by (simp add: AdvaMessage_init_def AdvertMessage_init_eq)

lemma AdvDirectIndMessage_init_ok:
  "2 \<le> length (body pkt) \<Longrightarrow> \<exists>d. AdvDirectIndMessage_init c pkt = Inr d"
  by (simp add: AdvDirectIndMessage_init_def AdvertMessage_init_eq)

lemma ScanReqMessage_init_ok:
  "2 \<le> length (body pkt) \<Longrightarrow> \<exists>d. ScanReqMessage_init c pkt = Inr d"
  by (simp add: ScanReqMessage_init_def AdvertMessage_init_eq)

lemma construct_primary_ok:
  assumes "2 \<le> length (body pkt)" and "n = 5 \<longrightarrow> 36 \<le> length (body pkt)"
  shows "\<exists>d. construct (spec_primary_kind n) new pkt = Inr d"
  using assms
  by (auto simp: spec_primary_kind_def AdvertMessage_init_eq
           intro: AdvaMessage_init_ok AdvDirectIndMessage_init_ok ScanReqMessage_init_ok
                  ConnectIndMessage_init_ok AdvExtIndMessage_init_ok)

lemma pdutype_primary:
  "map (\<lambda>n. pdutype (spec_primary_kind n)) [0, 1, 2, 3, 4, 5, 6, 7, 8, 9, 10, 11, 12, 13, 14, 15] =
     [''ADV_IND'', ''ADV_DIRECT_IND'', ''ADV_NONCONN_IND'', ''SCAN_REQ'', ''SCAN_RSP'',
      ''CONNECT_IND'', ''ADV_SCAN_IND'', ''ADV_EXT_IND'',
      ''RFU'', ''RFU'', ''RFU'', ''RFU'', ''RFU'', ''RFU'', ''RFU'', ''RFU'']"
  by (simp add: spec_primary_kind_def)

text \<open>
  C9. On a primary channel (37 and above) the low four bits of the first body byte select
  the class: 0 ADV\_IND, 1 ADV\_DIRECT\_IND, 2 ADV\_NONCONN\_IND, 3 SCAN\_REQ, 4 SCAN\_RSP,
  5 CONNECT\_IND, 6 ADV\_SCAN\_IND, 7 ADV\_EXT\_IND, and each of 8 to 15 the generic
  advertising PDU. The selection never fails, for any of the 16 values. The instance
  that \<open>AdvertMessage.decode\<close> returns has the selected class; building it raises only
  when the body is too short for the fixed fields of that class (fewer than 2 bytes, or
  fewer than 36 for CONNECT\_IND), which is the entry point's business.
\<close>

theorem primary_channel_dispatch:
  assumes "37 \<le> chan pkt" and "body pkt = b0 # rest"
  shows "0 \<le> uint b0 AND 0xF \<and> uint b0 AND 0xF < 16 \<and>
         AdvertMessage_select pkt dstate = Inr (spec_primary_kind (uint b0 AND 0xF)) \<and>
         (case AdvertMessage_decode pkt dstate new of
            Inr d \<Rightarrow> cls d = spec_primary_kind (uint b0 AND 0xF)
          | Inl e \<Rightarrow> length (body pkt) < 2 \<or> (uint b0 AND 0xF = 5 \<and> length (body pkt) < 36)) \<and>
         map (\<lambda>n. pdutype (spec_primary_kind n))
             [0, 1, 2, 3, 4, 5, 6, 7, 8, 9, 10, 11, 12, 13, 14, 15] =
           [''ADV_IND'', ''ADV_DIRECT_IND'', ''ADV_NONCONN_IND'', ''SCAN_REQ'', ''SCAN_RSP'',
            ''CONNECT_IND'', ''ADV_SCAN_IND'', ''ADV_EXT_IND'',
            ''RFU'', ''RFU'', ''RFU'', ''RFU'', ''RFU'', ''RFU'', ''RFU'', ''RFU'']"
proof -
  let ?n = "uint b0 AND 0xF"
  have sel: "AdvertMessage_select pkt dstate = Inr (spec_primary_kind ?n)"
    using assms by (rule select_primary)
  have dec: "AdvertMessage_decode pkt dstate new = construct (spec_primary_kind ?n) new pkt"
    by (simp add: AdvertMessage_decode_def sel)
  have res: "case AdvertMessage_decode pkt dstate new of
            Inr d \<Rightarrow> cls d = spec_primary_kind ?n
          | Inl e \<Rightarrow> length (body pkt) < 2 \<or> (?n = 5 \<and> length (body pkt) < 36)"
  proof (cases "construct (spec_primary_kind ?n) new pkt")
    case (Inr d)
    then show ?thesis using construct_hdr [OF Inr] by (simp add: dec hdr_of_def)
  next
    case (Inl e)
    have "\<not> (2 \<le> length (body pkt) \<and> (?n = 5 \<longrightarrow> 36 \<le> length (body pkt)))"
      using construct_primary_ok [of pkt ?n new] Inl by auto
    then show ?thesis using Inl by (auto simp: dec)
  qed
  show ?thesis
    using nibble_range [of b0] sel res pdutype_primary by simp
qed

theorem primary_channel_dispatch_witness:
  "37 \<le> chan ex_adv_ind \<and> body ex_adv_ind = 0x40 # [0x06, 0x01, 0x02, 0x03, 0x04, 0x05, 0x06] \<and>
   AdvertMessage_select ex_adv_ind None = Inr AdvIndMessage \<and>
   map_sum id cls (AdvertMessage_decode ex_adv_ind None 0) = Inr AdvIndMessage"
proof -
  have h1: "37 \<le> chan ex_adv_ind" by (simp add: ex_adv_ind_def)
  have h2: "body ex_adv_ind = 0x40 # [0x06, 0x01, 0x02, 0x03, 0x04, 0x05, 0x06]"
    by (simp add: ex_adv_ind_def)
  show ?thesis
    using h1 h2 primary_channel_dispatch [OF h1 h2, of None 0]
    by (auto simp: spec_primary_kind_def split: sum.splits)
qed

subsection \<open>The entry point returns the record's fields\<close>

lemma decode_hdr:
  assumes "DPacketMessage_decode pkt dstate new = (Decoded d, dstate')"
  shows "\<exists>c. hdr_of d = (pkt, c)"
proof -
  let ?r = "if aa pkt = BLE_ADV_AA then AdvertMessage_decode pkt dstate new
            else DataMessage_decode pkt dstate new"
  from assms have "?r = Inr d"
    by (auto simp: DPacketMessage_decode_def split: sum.splits option.splits prod.splits)
  then show ?thesis
    by (auto simp: AdvertMessage_decode_def DataMessage_decode_def err_bind_def Let_def
             split: if_splits sum.splits dest: construct_hdr)
qed

lemma decode_undecoded:
  "DPacketMessage_decode pkt dstate new = (Undecoded p, dstate') \<Longrightarrow> p = pkt"
  by (auto simp: DPacketMessage_decode_def split: sum.splits option.splits prod.splits)

text \<open>
  C10. Whatever the entry point returns carries the input record's fields: a decoded
  instance has the record's capture timestamp, epoch timestamp, access address, RSSI,
  channel, PHY, body, direction flag, event counter and CRC byte-order flag, and the
  undecoded result is the input record itself. (The decoder never assigns to a field of
  the record it is given, so the embedding passes the record by value.)
\<close>

theorem decode_keeps_record_fields:
  "case fst (DPacketMessage_decode pkt dstate new) of
     Decoded d \<Rightarrow>
       ts d = ts pkt \<and> ts_epoch d = ts_epoch pkt \<and> aa d = aa pkt \<and> rssi d = rssi pkt \<and>
       chan d = chan pkt \<and> phy d = phy pkt \<and> body d = body pkt \<and>
       data_dir d = data_dir pkt \<and> event d = event pkt \<and> crc_rev d = crc_rev pkt
   | Undecoded p \<Rightarrow> p = pkt"
proof (cases "DPacketMessage_decode pkt dstate new")
  case (Pair r dstate')
  show ?thesis
  proof (cases r)
    case (Decoded d)
    with Pair obtain c where "hdr_of d = (pkt, c)" using decode_hdr by blast
    then have "PacketMessage.truncate d = pkt" by (simp add: hdr_of_def)
    then have "ts (PacketMessage.truncate d) = ts pkt \<and>
       ts_epoch (PacketMessage.truncate d) = ts_epoch pkt \<and>
       aa (PacketMessage.truncate d) = aa pkt \<and>
       rssi (PacketMessage.truncate d) = rssi pkt \<and>
       chan (PacketMessage.truncate d) = chan pkt \<and>
       phy (PacketMessage.truncate d) = phy pkt \<and>
       body (PacketMessage.truncate d) = body pkt \<and>
       data_dir (PacketMessage.truncate d) = data_dir pkt \<and>
       event (PacketMessage.truncate d) = event pkt \<and>
       crc_rev (PacketMessage.truncate d) = crc_rev pkt" by simp
    then show ?thesis using Pair Decoded by (simp add: PacketMessage.truncate_def)
  next
    case (Undecoded p)
    then show ?thesis using Pair decode_undecoded by simp
  qed
qed

subsection \<open>PDU type 7 on a secondary channel\<close>

lemma select_type7:
  assumes "chan pkt < 37" and "body pkt = b0 # rest" and "uint b0 AND 0xF = 7" and "0 \<le> ts pkt"
  shows "AdvertMessage_select pkt (Some st) = Inr
      (if (\<exists>dl. aux_pending_scan_rsp st = Some dl \<and> ts pkt < dl) then AuxScanRspMessage
       else if (\<exists>adi ch dl. aux_pending_chain st = Some (adi, ch, dl) \<and> ch = chan pkt \<and> ts pkt < dl)
            then AuxChainIndMessage
       else AuxAdvIndMessage)"
  using assms
  by (auto simp: AdvertMessage_select_def getitem_def truthy_float_def split: option.splits)

text \<open>
  C4. A record on a secondary channel (below 37) with PDU type 7 and a body of at least
  two bytes, decoded with a decoder state, becomes: AUX\_SCAN\_RSP if a pending
  scan-response deadline exists and the record's timestamp is strictly before it; else
  AUX\_CHAIN\_IND if a pending chain exists, its channel is the record's channel and the
  timestamp is strictly before the chain deadline; else AUX\_ADV\_IND. Capture
  timestamps count seconds from the start of the capture and are not negative.
\<close>

theorem aux_type7_tie_break:
  assumes "chan pkt < 37" and "body pkt = b0 # b1 # rest" and "uint b0 AND 0xF = 7"
    and "0 \<le> ts pkt"
  shows "\<exists>d. AdvertMessage_decode pkt (Some st) new = Inr d \<and> cls d =
      (if (\<exists>dl. aux_pending_scan_rsp st = Some dl \<and> ts pkt < dl) then AuxScanRspMessage
       else if (\<exists>adi ch dl. aux_pending_chain st = Some (adi, ch, dl) \<and> ch = chan pkt \<and> ts pkt < dl)
            then AuxChainIndMessage
       else AuxAdvIndMessage)"
proof -
  let ?k = "if (\<exists>dl. aux_pending_scan_rsp st = Some dl \<and> ts pkt < dl) then AuxScanRspMessage
       else if (\<exists>adi ch dl. aux_pending_chain st = Some (adi, ch, dl) \<and> ch = chan pkt \<and> ts pkt < dl)
            then AuxChainIndMessage
       else AuxAdvIndMessage"
  have sel: "AdvertMessage_select pkt (Some st) = Inr ?k"
    using assms by (intro select_type7) auto
  have len: "2 \<le> length (body pkt)" using assms(2) by simp
  have "\<exists>d. construct ?k new pkt = Inr d"
    using AdvExtIndMessage_init_ok [OF len] by auto
  then obtain d where d: "construct ?k new pkt = Inr d" by blast
  from construct_hdr [OF d] have "cls d = ?k" by (simp add: hdr_of_def)
  with d sel show ?thesis by (simp add: AdvertMessage_decode_def)
qed

theorem aux_type7_tie_break_witness:
  "chan ex_aux_adv < 37 \<and>
   body ex_aux_adv = 0x07 # 0x07 # [0x06, 0x18, 0x34, 0x12, 0x05, 0x0A, 0x00] \<and>
   uint (0x07 :: byte) AND 0xF = 7 \<and> 0 \<le> ts ex_aux_adv \<and>
   map_sum id cls
     (AdvertMessage_decode ex_aux_adv (Some (ex_state\<lparr>aux_pending_scan_rsp := Some 2\<rparr>)) 0)
     = Inr AuxScanRspMessage"
proof -
  have h1: "chan ex_aux_adv < 37" by (simp add: ex_aux_adv_def)
  have h2: "body ex_aux_adv = 0x07 # 0x07 # [0x06, 0x18, 0x34, 0x12, 0x05, 0x0A, 0x00]"
    by (simp add: ex_aux_adv_def)
  have h3: "uint (0x07 :: byte) AND 0xF = 7" by simp
  have h4: "0 \<le> ts ex_aux_adv" by (simp add: ex_aux_adv_def)
  have t: "ts ex_aux_adv < 2" by (simp add: ex_aux_adv_def)
  show ?thesis
    using h1 h2 h4 t
      aux_type7_tie_break [OF h1 h2 h3 h4, of "ex_state\<lparr>aux_pending_scan_rsp := Some 2\<rparr>" 0]
    by auto
qed

subsection \<open>Decoding without a decoder state\<close>

text \<open>
  C7. \<open>decode\<close> takes \<open>dstate=None\<close> by default and guards the state update with
  \<open>if dstate\<close>, but the type 7 branch of \<open>AdvertMessage.decode\<close> reads
  \<open>dstate.aux_pending_scan_rsp\<close> unguarded. So the record \<open>ex_aux_adv\<close>, which decodes
  to an AUX\_ADV\_IND when a decoder state is given, comes back undecoded when the state
  is absent.
\<close>

theorem decode_type7_without_state:
  "DPacketMessage_decode ex_aux_adv None 0 = (Undecoded ex_aux_adv, None) \<and>
   map_sum id cls (AdvertMessage_decode ex_aux_adv (Some ex_state) 0) = Inr AuxAdvIndMessage \<and>
   view_result (fst (DPacketMessage_decode ex_aux_adv (Some ex_state) 0))
     = Some AuxAdvIndMessage"
  by code_simp

subsection \<open>State update: connections\<close>

lemma isinstance_ConnectInd:
  "isinstance c ConnectIndMessage = (c = ConnectIndMessage \<or> c = AuxConnectReqMessage)"
  by (cases c) (simp_all add: isinstance_def)

lemma isinstance_AuxConnectRsp:
  "isinstance c AuxConnectRspMessage = (c = AuxConnectRspMessage)"
  by (cases c) (simp_all add: isinstance_def)

lemma ConnectIndMessage_init_attrs:
  assumes "ConnectIndMessage_init c pkt = Inr d"
  shows "cls d = c \<and> chan d = chan pkt \<and> (\<exists>a ci. aa_conn d = Some a \<and> CRCInit d = Some ci)"
proof -
  from ConnectIndMessage_init_hdr [OF assms] have "cls d = c" "chan d = chan pkt"
    by (auto simp: hdr_of_def PacketMessage.truncate_def)
  moreover from assms have "\<exists>a ci. aa_conn d = Some a \<and> CRCInit d = Some ci"
    by (auto simp: ConnectIndMessage_init_def err_bind_def split: sum.splits prod.splits)
  ultimately show ?thesis by simp
qed

lemma clear_pending_conn [simp]:
  "cur_aa (clear_pending pkt st) = cur_aa st"
  "crc_init_rev (clear_pending pkt st) = crc_init_rev st"
  "aux_pending_aa (clear_pending pkt st) = aux_pending_aa st"
  "aux_pending_crci (clear_pending pkt st) = aux_pending_crci st"
  "last_state (clear_pending pkt st) = last_state st"
  by (simp_all add: clear_pending_def Let_def split: option.splits prod.splits)

text \<open>
  C1, as the code has it. For an instance built by the CONNECT\_IND constructor (class
  CONNECT\_IND or AUX\_CONNECT\_REQ) the state update never fails. If the channel is a
  secondary channel (below 37) and the last capture mode is not extended advertising,
  it stores \<open>aa_conn\<close> and \<open>CRCInit\<close> in the pending slot and leaves the active access
  address and reversed CRC-init as they were. Otherwise (a primary channel, or the last
  capture mode is extended advertising) it sets the active access address to \<open>aa_conn\<close>
  and the reversed CRC-init to \<open>rbit24(CRCInit)\<close> at once and leaves the pending slot
  as it was.
\<close>

theorem connect_ind_update:
  assumes "ConnectIndMessage_init c pkt = Inr d" and "isinstance c ConnectIndMessage"
  shows "\<exists>a ci st'. aa_conn d = Some a \<and> CRCInit d = Some ci \<and>
           update_state d st = (None, st') \<and>
           (if chan pkt < 37 \<and> last_state st \<noteq> ADVERTISING_EXT
            then aux_pending_aa st' = Some a \<and> aux_pending_crci st' = Some ci \<and>
                 cur_aa st' = cur_aa st \<and> crc_init_rev st' = crc_init_rev st
            else cur_aa st' = Some a \<and> crc_init_rev st' = Some (rbit24 ci) \<and>
                 aux_pending_aa st' = aux_pending_aa st \<and>
                 aux_pending_crci st' = aux_pending_crci st)"
proof -
  from ConnectIndMessage_init_attrs [OF assms(1)]
  obtain a ci where d: "cls d = c" "chan d = chan pkt" "aa_conn d = Some a" "CRCInit d = Some ci"
    by blast
  show ?thesis
  proof (cases "chan pkt < 37 \<and> last_state st \<noteq> ADVERTISING_EXT")
    case True
    then have "update_rules d st = (None, st\<lparr>aux_pending_aa := Some a, aux_pending_crci := Some ci\<rparr>)"
      using d assms(2) by (simp add: update_rules_def)
    then show ?thesis using True d by (simp add: update_state_def)
  next
    case False
    then have "update_rules d st = (None, st\<lparr>cur_aa := Some a, crc_init_rev := Some (rbit24 ci)\<rparr>)"
      using d assms(2) by (auto simp add: update_rules_def)
    then show ?thesis using False d by (auto simp add: update_state_def)
  qed
qed

theorem connect_ind_update_witness:
  "\<exists>d. ConnectIndMessage_init ConnectIndMessage ex_connect_ind = Inr d \<and>
       isinstance ConnectIndMessage ConnectIndMessage \<and>
       aa_conn d = Some 0x12345678 \<and> CRCInit d = Some 0x030201 \<and>
       map_prod id view_state (update_state d ex_state)
         = (None, (Some 0x12345678, Some 0x8040C0, None, None))"
proof -
  obtain d where d: "ConnectIndMessage_init ConnectIndMessage ex_connect_ind = Inr d"
    using ConnectIndMessage_init_ok [of ex_connect_ind ConnectIndMessage]
    by (auto simp: ex_connect_ind_def)
  have i: "isinstance ConnectIndMessage ConnectIndMessage" by (simp add: isinstance_def)
  have "map_sum id (\<lambda>d. (aa_conn d, CRCInit d))
          (ConnectIndMessage_init ConnectIndMessage ex_connect_ind)
        = Inr (Some 0x12345678, Some 0x030201)"
    by code_simp
  with d have f: "aa_conn d = Some 0x12345678" "CRCInit d = Some 0x030201" by simp_all
  have r: "rbit24 0x030201 = 0x8040C0" by code_simp
  have c: "\<not> chan ex_connect_ind < 37" by (simp add: ex_connect_ind_def)
  have s: "view_state ex_state = (None, None, None, None)"
    by (simp add: view_state_def ex_state_def)
  from connect_ind_update [OF d i, of ex_state] f r c s
  have "map_prod id view_state (update_state d ex_state)
         = (None, (Some 0x12345678, Some 0x8040C0, None, None))"
    by (auto simp: view_state_def)
  with d i f show ?thesis by blast
qed

text \<open>
  C1 as claimed fails in extended-advertising mode: there the claim has a CONNECT\_IND
  fill the pending slot and leave the active connection alone, on either kind of
  channel. With the last capture mode ADVERTISING\_EXT the code activates the connection
  and leaves the pending slot empty, for \<open>ex_connect_ind\<close> moved to channel 10 and for
  \<open>ex_connect_ind\<close> on channel 37.
\<close>

theorem connect_ind_ext_adv_counterexample:
  "view_state (ex_state\<lparr>last_state := ADVERTISING_EXT\<rparr>) = (None, None, None, None) \<and>
   map_prod view_result (map_option view_state)
     (DPacketMessage_decode (ex_connect_ind\<lparr>chan := 10\<rparr>)
        (Some (ex_state\<lparr>last_state := ADVERTISING_EXT\<rparr>)) 0)
   = (Some AuxConnectReqMessage, Some (Some 0x12345678, Some 0x8040C0, None, None)) \<and>
   map_prod view_result (map_option view_state)
     (DPacketMessage_decode ex_connect_ind
        (Some (ex_state\<lparr>last_state := ADVERTISING_EXT\<rparr>)) 0)
   = (Some ConnectIndMessage, Some (Some 0x12345678, Some 0x8040C0, None, None))"
  by code_simp

lemma aux_connect_rsp_promotes:
  assumes "cls d = AuxConnectRspMessage"
    and "aux_pending_aa st = Some a" and "aux_pending_crci st = Some ci"
  shows "\<exists>st'. update_state d st = (None, st') \<and> cur_aa st' = Some a \<and>
           crc_init_rev st' = Some (rbit24 ci) \<and>
           aux_pending_aa st' = None \<and> aux_pending_crci st' = None"
  using assms by (simp add: update_state_def update_rules_def isinstance_def)

lemma aux_connect_rsp_empty_slot:
  assumes "cls d = AuxConnectRspMessage" and "aux_pending_crci st = None"
  shows "update_state d st = (Some TypeError, st\<lparr>cur_aa := aux_pending_aa st, aux_pending_aa := None\<rparr>)"
  using assms by (simp add: update_state_def update_rules_def isinstance_def)

text \<open>
  C2. With the pending slot populated an AUX\_CONNECT\_RSP promotes it
  (\<open>aux_connect_rsp_promotes\<close>). With the slot empty the update is not a no-op on the
  connection: the active access address is overwritten with the empty slot before
  \<open>rbit24(None)\<close> raises. Here a state with active access address 0x12345678 and
  nothing pending processes \<open>ex_aux_connect_rsp\<close>: the update ends in a TypeError and
  the active access address is gone.
\<close>

theorem aux_connect_rsp_without_pending:
  "view_state (ex_state\<lparr>cur_aa := Some 0x12345678, crc_init_rev := Some 0x8040C0\<rparr>)
     = (Some 0x12345678, Some 0x8040C0, None, None) \<and>
   map_sum id (\<lambda>d. (cls d, map_prod id view_state
       (update_state d (ex_state\<lparr>cur_aa := Some 0x12345678, crc_init_rev := Some 0x8040C0\<rparr>))))
     (AdvertMessage_decode ex_aux_connect_rsp
        (Some (ex_state\<lparr>cur_aa := Some 0x12345678, crc_init_rev := Some 0x8040C0\<rparr>)) 0)
   = Inr (AuxConnectRspMessage, Some TypeError, (None, Some 0x8040C0, None, None))"
  by code_simp

subsection \<open>Failure containment at the entry point\<close>

lemma construct_ConnectInd_attrs:
  assumes "construct c new pkt = Inr d" and "isinstance c ConnectIndMessage"
  shows "\<exists>a ci. aa_conn d = Some a \<and> CRCInit d = Some ci"
  using assms ConnectIndMessage_init_attrs [of c pkt d]
  by (auto simp: isinstance_ConnectInd)

lemma update_state_failure:
  assumes "construct c new pkt = Inr d" and "update_state d st = (Some e, st')"
  shows "st' = st \<or>
         (c = AuxConnectRspMessage \<and> aux_pending_crci st = None \<and> e = TypeError \<and>
          st' = st\<lparr>cur_aa := aux_pending_aa st, aux_pending_aa := None\<rparr>)"
proof -
  from construct_hdr [OF assms(1)] have c: "cls d = c" by (simp add: hdr_of_def)
  from assms(2) have r: "update_rules d st = (Some e, st')"
    by (auto simp: update_state_def split: prod.splits option.splits)
  show ?thesis
  proof (cases "isinstance c ConnectIndMessage")
    case True
    with construct_ConnectInd_attrs [OF assms(1)] r c show ?thesis
      by (auto simp: update_rules_def split: if_splits)
  next
    case False
    with r c show ?thesis
      by (auto simp: update_rules_def isinstance_AuxConnectRsp Let_def
               split: if_splits option.splits)
  qed
qed

lemma data_class_mem: "data_type_classes ! nat (x AND 0x3) \<in> set data_type_classes"
proof -
  have "x AND 0x3 \<le> 0x3" by (rule AND_upper2) simp
  then have "nat (x AND 0x3) < 4" by linarith
  then have "nat (x AND 0x3) < length data_type_classes"
    by (simp add: data_type_classes_def)
  then show ?thesis by (rule nth_mem)
qed

lemma decode_failure_state:
  assumes "DPacketMessage_decode pkt dstate new = (Undecoded p, dstate')"
  shows "p = pkt \<and>
         (dstate' = dstate \<or>
          (\<exists>st. dstate = Some st \<and> aux_pending_crci st = None \<and>
                dstate' = Some (st\<lparr>cur_aa := aux_pending_aa st, aux_pending_aa := None\<rparr>) \<and>
                map_sum id cls (AdvertMessage_decode pkt dstate new) = Inr AuxConnectRspMessage))"
proof -
  let ?r = "if aa pkt = BLE_ADV_AA then AdvertMessage_decode pkt dstate new
            else DataMessage_decode pkt dstate new"
  have p: "p = pkt" using assms by (rule decode_undecoded)
  show ?thesis
  proof (cases ?r)
    case (Inl e)
    with assms show ?thesis by (auto simp: DPacketMessage_decode_def)
  next
    case (Inr d)
    show ?thesis
    proof (cases dstate)
      case None
      with Inr assms show ?thesis by (auto simp: DPacketMessage_decode_def)
    next
      case (Some st)
      with Inr assms obtain e st' where u: "update_state d st = (Some e, st')"
        and s: "dstate' = Some st'"
        by (auto simp: DPacketMessage_decode_def split: prod.splits option.splits)
      from Inr obtain c where k: "construct c new pkt = Inr d"
        by (auto simp: AdvertMessage_decode_def DataMessage_decode_def err_bind_def Let_def
                 split: if_splits sum.splits)
      from update_state_failure [OF k u]
      show ?thesis
      proof
        assume "st' = st"
        with s Some p show ?thesis by simp
      next
        assume a: "c = AuxConnectRspMessage \<and> aux_pending_crci st = None \<and> e = TypeError \<and>
          st' = st\<lparr>cur_aa := aux_pending_aa st, aux_pending_aa := None\<rparr>"
        from construct_hdr [OF k] a have cd: "cls d = AuxConnectRspMessage"
          by (simp add: hdr_of_def)
        have "aa pkt = BLE_ADV_AA"
        proof (rule ccontr)
          assume "aa pkt \<noteq> BLE_ADV_AA"
          with Inr have "DataMessage_decode pkt dstate new = Inr d" by simp
          then obtain c' where "construct c' new pkt = Inr d" "c' \<in> set data_type_classes"
            by (auto simp: DataMessage_decode_def err_bind_def Let_def
                     split: sum.splits intro: data_class_mem)
          with construct_hdr [of c' new pkt d] cd show False
            by (auto simp: hdr_of_def data_type_classes_def)
        qed
        with Inr cd have "map_sum id cls (AdvertMessage_decode pkt dstate new) = Inr AuxConnectRspMessage"
          by simp
        with a s Some p show ?thesis by simp
      qed
    qed
  qed
qed

text \<open>
  C3. The entry point never raises, and on a failure it returns the record it was given
  (\<open>decode_undecoded\<close>). The decoder state is as before on every failure
  path but one (\<open>decode_failure_state\<close>): an AUX\_CONNECT\_RSP that meets an empty pending
  slot fails after two assignments to the state. For \<open>ex_aux_connect_rsp\<close> and a state
  with active access address 0x12345678, the call returns the record undecoded and the
  state has lost its access address.
\<close>

theorem decode_failure_changes_state:
  "DPacketMessage_decode ex_aux_connect_rsp
     (Some (ex_state\<lparr>cur_aa := Some 0x12345678, crc_init_rev := Some 0x8040C0\<rparr>)) 0
   = (Undecoded ex_aux_connect_rsp, Some (ex_state\<lparr>crc_init_rev := Some 0x8040C0\<rparr>)) \<and>
   cur_aa (ex_state\<lparr>cur_aa := Some 0x12345678, crc_init_rev := Some 0x8040C0\<rparr>)
     = Some 0x12345678 \<and>
   cur_aa (ex_state\<lparr>crc_init_rev := Some 0x8040C0\<rparr>) = None"
  by code_simp

subsection \<open>State update: clearing the pending flags\<close>

lemma clear_pending_scan_rsp:
  assumes "aux_pending_scan_rsp st = Some dl" and "dl \<noteq> 0"
  shows "aux_pending_scan_rsp (clear_pending pkt st) =
           (if dl < ts pkt \<or> isinstance (cls pkt) AuxScanRspMessage then None else Some dl)"
  using assms
  by (auto simp: clear_pending_def truthy_float_def Let_def split: option.splits prod.splits)

lemma clear_pending_chain:
  assumes "aux_pending_chain st = Some (adi, ch, dl)"
  shows "aux_pending_chain (clear_pending pkt st) =
           (if dl < ts pkt \<or>
               (isinstance (cls pkt) AuxChainIndMessage \<and> chan pkt = ch \<and>
                adi_eq (AdvDataInfo pkt) adi)
            then None else Some (adi, ch, dl))"
  using assms
  by (auto simp: clear_pending_def truthy_float_def Let_def split: option.splits prod.splits)

lemma adi_eq_fresh:
  assumes "oid a \<noteq> oid b"
  shows "\<not> adi_eq (Some a) (Some b)"
  using assms by (simp add: adi_eq_def)

text \<open>
  C6. The sweep clears a (non-zero) scan-response deadline when the timestamp has passed
  it or the PDU is an AUX\_SCAN\_RSP, and clears the chain slot when the timestamp has
  passed its deadline (\<open>clear_pending_scan_rsp\<close>, \<open>clear_pending_chain\<close>). The third
  case compares \<open>pkt.AdvDataInfo == dstate.aux_pending_chain[0]\<close>, and \<open>AdvDataInfo\<close>
  has no \<open>__eq__\<close>: the instance of the chain PDU is never the instance stored by an
  earlier PDU. Here \<open>ex_aux_adv\<close> arms the slot (channel 5, DID 0x234, SID 1, and the
  deadline that the float sum \<open>1.0 + 300*1E-6 + 0.0005\<close> gives, 563400313384049 / 2^49 or
  about 1.0008 s); \<open>ex_aux_chain\<close> arrives on channel 5 at about 1.0005 s with DID 0x234
  and SID 1 and is decoded as AUX\_CHAIN\_IND; the slot is still armed afterwards.
\<close>

theorem chain_slot_not_cleared_by_matching_chain_ind:
  "map_prod view_result (map_option aux_pending_chain)
     (DPacketMessage_decode ex_aux_adv (Some ex_state) 1)
     = (Some AuxAdvIndMessage,
        Some (Some (Some \<lparr>oid = 1, did = 0x234, sid = 1\<rparr>, 5, 563400313384049 / 562949953421312))) \<and>
   map_sum id (\<lambda>d. (cls d, chan d, ts d, map_option did (AdvDataInfo d),
                     map_option sid (AdvDataInfo d)))
     (AdvertMessage_decode ex_aux_chain
        (snd (DPacketMessage_decode ex_aux_adv (Some ex_state) 1)) 2)
     = Inr (AuxChainIndMessage, 5, 2049 / 2048, Some 0x234, Some 1) \<and>
   map_prod view_result (map_option aux_pending_chain)
     (DPacketMessage_decode ex_aux_chain
        (snd (DPacketMessage_decode ex_aux_adv (Some ex_state) 1)) 2)
     = (Some AuxChainIndMessage,
        Some (Some (Some \<lparr>oid = 1, did = 0x234, sid = 1\<rparr>, 5, 563400313384049 / 562949953421312)))"
  by code_simp

subsection \<open>The extended header walk\<close>

lemma walk_inv_err:
  "walk_inv b c fl n (Some e, self, pos) \<Longrightarrow> n \<le> m \<Longrightarrow> walk_inv b c fl m (Some e, self, pos)"
  by (auto simp: walk_inv_def intro: order_trans)

lemma prefix_skip:
  assumes "n < length fl" and "\<not> fl ! n" and "length fl = 8"
  shows "take (Suc n) fl @ replicate (8 - Suc n) False = take n fl @ replicate (8 - n) False"
proof -
  have "take (Suc n) fl = take n fl @ [False]"
    using assms by (simp add: take_Suc_conv_app_nth)
  moreover have "replicate (8 - n) False = False # replicate (8 - Suc n) False"
    using assms by (cases "8 - n") auto
  ultimately show ?thesis by simp
qed

lemma prefix_set:
  assumes "n < length fl" and "fl ! n" and "length fl = 8"
  shows "(take n fl @ replicate (8 - n) False)[n := True]
           = take (Suc n) fl @ replicate (8 - Suc n) False"
proof -
  have t: "take (Suc n) fl = take n fl @ [True]"
    using assms by (simp add: take_Suc_conv_app_nth)
  have r: "replicate (8 - n) False = False # replicate (8 - Suc n) False"
    using assms by (cases "8 - n") auto
  have "(take n fl @ False # replicate (8 - Suc n) False)[n := True]
          = take n fl @ True # replicate (8 - Suc n) False"
    using assms by (simp add: list_update_append)
  with t r show ?thesis by simp
qed

lemma walk_inv_errI:
  assumes "walk_inv b c fl k (None, self, pos)" and "k \<le> n"
  shows "walk_inv b c fl n (Some e, self, pos)"
  using assms by (auto simp: walk_inv_def)

lemma walk_inv_skip:
  assumes "walk_inv b c fl n (None, self, pos)" and "\<not> fl ! n" and "n < 8" and "length fl = 8"
  shows "walk_inv b c fl (Suc n) (None, self, pos)"
  using assms prefix_skip [of n fl] by (simp add: walk_inv_def)

lemma walk_inv_set:
  assumes "walk_inv b c fl n (None, self, pos)" and "fl ! n" and "n < 8" and "length fl = 8"
    and "body self' = body self" and "cls self' = cls self"
    and "ext_present self' = (ext_present self)[n := True]"
    and "ext_stored self' \<le> min pos' (length b) - 4" and "4 \<le> pos'"
  shows "walk_inv b c fl (Suc n) (None, self', pos')"
  using assms prefix_set [of n fl] by (simp add: walk_inv_def)

lemma walk_inv_absent:
  assumes "walk_inv b c fl n (None, self, pos)" and "n \<le> i" and "i < 8" and "length fl = 8"
  shows "\<not> ext_present self ! i"
proof -
  from assms(1) have "ext_present self = take n fl @ replicate (8 - n) False"
    by (simp add: walk_inv_def)
  moreover have "length (take n fl) = n" using assms by simp
  moreover have "i - n < 8 - n" using assms by simp
  ultimately show ?thesis using assms(2)
    by (simp add: nth_append)
qed

lemma walk_inv_stored:
  "walk_inv b c fl n (None, self, pos) \<Longrightarrow>
     ext_stored self \<le> min pos (length b) - 4 \<and> 4 \<le> pos \<and> body self = b"
  by (simp add: walk_inv_def)

lemma stored_slice:
  fixes s pos len k :: nat
  assumes "s \<le> min pos len - 4" and "4 \<le> pos"
  shows "s + min k (len - pos) \<le> min (pos + k) len - 4"
  using assms by arith

lemma stored_item:
  fixes s pos len k :: nat
  assumes "s \<le> min pos len - 4" and "4 \<le> pos" and "pos + k \<le> len"
  shows "s + k \<le> min (pos + k) len - 4"
  using assms by arith

lemma present_upd:
  "ext_present (d\<lparr>AdvA := Some x0\<rparr>) = (ext_present d)[0 := True]"
  "ext_present (d\<lparr>TargetA := Some x1\<rparr>) = (ext_present d)[1 := True]"
  "ext_present (d\<lparr>CTEInfo := Some x2\<rparr>) = (ext_present d)[2 := True]"
  "ext_present (d\<lparr>AdvDataInfo := Some x3\<rparr>) = (ext_present d)[3 := True]"
  "ext_present (d\<lparr>AuxPtr := Some x4\<rparr>) = (ext_present d)[4 := True]"
  "ext_present (d\<lparr>SyncInfo := Some x5\<rparr>) = (ext_present d)[5 := True]"
  "ext_present (d\<lparr>TxPower := Some x6\<rparr>) = (ext_present d)[6 := True]"
  "ext_present (d\<lparr>ACAD := Some x7\<rparr>) = (ext_present d)[7 := True]"
  by (simp_all add: ext_present_def)

lemma stored_upd:
  "\<not> ext_present d ! 0 \<Longrightarrow> ext_stored (d\<lparr>AdvA := Some x0\<rparr>) = ext_stored d + length x0"
  "\<not> ext_present d ! 1 \<Longrightarrow> ext_stored (d\<lparr>TargetA := Some x1\<rparr>) = ext_stored d + length x1"
  "\<not> ext_present d ! 2 \<Longrightarrow> ext_stored (d\<lparr>CTEInfo := Some x2\<rparr>) = ext_stored d + 1"
  "\<not> ext_present d ! 3 \<Longrightarrow> ext_stored (d\<lparr>AdvDataInfo := Some x3\<rparr>) = ext_stored d + 2"
  "\<not> ext_present d ! 4 \<Longrightarrow> ext_stored (d\<lparr>AuxPtr := Some x4\<rparr>) = ext_stored d + 3"
  "\<not> ext_present d ! 5 \<Longrightarrow> ext_stored (d\<lparr>SyncInfo := Some x5\<rparr>) = ext_stored d + length x5"
  "\<not> ext_present d ! 6 \<Longrightarrow> ext_stored (d\<lparr>TxPower := Some x6\<rparr>) = ext_stored d + 1"
  "\<not> ext_present d ! 7 \<Longrightarrow> ext_stored (d\<lparr>ACAD := Some x7\<rparr>) = ext_stored d + length x7"
  by (simp_all add: ext_present_def ext_stored_def olen_def osize_def)


lemma AdvDataInfo_init_len: "AdvDataInfo_init new x = Inr v \<Longrightarrow> 2 \<le> length x"
  by (auto simp: AdvDataInfo_init_def getitem_def err_bind_def split: if_splits)

lemma AuxPtr_init_len: "AuxPtr_init x = Inr v \<Longrightarrow> 3 \<le> length x"
  by (auto simp: AuxPtr_init_def getitem_def err_bind_def split: if_splits)

lemma unpack_b_len: "unpack_b x = Inr v \<Longrightarrow> 1 \<le> length x"
  by (auto simp: unpack_b_def split: list.splits)

lemma getitem_len: "getitem x i = Inr v \<Longrightarrow> i + 1 \<le> length x"
  by (auto simp: getitem_def split: if_splits)

lemma slice_fits: "k \<le> length (slice x pos (pos + k)) \<Longrightarrow> 0 < k \<Longrightarrow> pos + k \<le> length x"
  by (simp add: slice_length)

lemma step_AdvA_inv:
  assumes inv: "walk_inv b c fl 0 (None, self, pos)" and len: "length fl = 8"
    and fl: "fl ! 0 = (hdrFlags AND 0x01 \<noteq> 0)"
  shows "walk_inv b c fl (Suc 0) (walk_AdvA hdrFlags self pos)"
proof (cases "hdrFlags AND 0x01 \<noteq> 0")
  case False
  with fl have "\<not> fl ! 0" by simp
  from walk_inv_skip [OF inv this _ len] False show ?thesis
    by (simp add: walk_AdvA_def)
next
  case True
  let ?x = "slice (body self) pos (pos + 6)"
  from walk_inv_stored [OF inv] have st: "ext_stored self \<le> min pos (length b) - 4"
    and p: "4 \<le> pos" and bd: "body self = b" by simp_all
  have ab: "\<not> ext_present self ! 0" using walk_inv_absent [OF inv _ _ len] by simp
  have "ext_stored (self\<lparr>AdvA := Some ?x\<rparr>) = ext_stored self + min 6 (length b - pos)"
    using ab bd by (simp add: stored_upd slice_length)
  also have "\<dots> \<le> min (pos + 6) (length b) - 4" using st p by (rule stored_slice)
  finally have s': "ext_stored (self\<lparr>AdvA := Some ?x\<rparr>) \<le> min (pos + 6) (length b) - 4" .
  have "walk_inv b c fl (Suc 0) (None, self\<lparr>AdvA := Some ?x\<rparr>, pos + 6)"
    using inv _ _ len _ _ _ s'
  proof (rule walk_inv_set)
    show "fl ! 0" using fl True by simp
  qed (use p in \<open>simp_all add: present_upd\<close>)
  with True show ?thesis by (simp add: walk_AdvA_def)
qed

lemma step_TargetA_inv:
  assumes inv: "walk_inv b c fl 1 (None, self, pos)" and len: "length fl = 8"
    and fl: "fl ! 1 = (hdrFlags AND 0x02 \<noteq> 0)"
  shows "walk_inv b c fl (Suc 1) (walk_TargetA hdrFlags self pos)"
proof (cases "hdrFlags AND 0x02 \<noteq> 0")
  case False
  with fl have "\<not> fl ! 1" by simp
  from walk_inv_skip [OF inv this _ len] False show ?thesis
    by (simp add: walk_TargetA_def)
next
  case True
  let ?x = "slice (body self) pos (pos + 6)"
  from walk_inv_stored [OF inv] have st: "ext_stored self \<le> min pos (length b) - 4"
    and p: "4 \<le> pos" and bd: "body self = b" by simp_all
  have ab: "\<not> ext_present self ! 1" using walk_inv_absent [OF inv _ _ len] by simp
  have "ext_stored (self\<lparr>TargetA := Some ?x\<rparr>) = ext_stored self + min 6 (length b - pos)"
    using ab bd by (simp add: stored_upd slice_length)
  also have "\<dots> \<le> min (pos + 6) (length b) - 4" using st p by (rule stored_slice)
  finally have s': "ext_stored (self\<lparr>TargetA := Some ?x\<rparr>) \<le> min (pos + 6) (length b) - 4" .
  have "walk_inv b c fl (Suc 1) (None, self\<lparr>TargetA := Some ?x\<rparr>, pos + 6)"
    using inv _ _ len _ _ _ s'
  proof (rule walk_inv_set)
    show "fl ! 1" using fl True by simp
  qed (use p in \<open>simp_all add: present_upd\<close>)
  with True show ?thesis by (simp add: walk_TargetA_def)
qed

lemma step_CTEInfo_inv:
  assumes inv: "walk_inv b c fl 2 (None, self, pos)" and len: "length fl = 8"
    and fl: "fl ! 2 = (hdrFlags AND 0x04 \<noteq> 0)"
  shows "walk_inv b c fl (Suc 2) (walk_CTEInfo hdrFlags self pos)"
proof (cases "hdrFlags AND 0x04 \<noteq> 0")
  case False
  with fl have "\<not> fl ! 2" by simp
  from walk_inv_skip [OF inv this _ len] False show ?thesis
    by (simp add: walk_CTEInfo_def)
next
  case True
  show ?thesis
  proof (cases "getitem (body self) pos")
    case (Inl e)
    with True have "walk_CTEInfo hdrFlags self pos = (Some e, self, pos)"
      by (simp add: walk_CTEInfo_def)
    with inv show ?thesis by (simp add: walk_inv_errI)
  next
    case (Inr v)
    from walk_inv_stored [OF inv] have st: "ext_stored self \<le> min pos (length b) - 4"
      and p: "4 \<le> pos" and bd: "body self = b" by simp_all
    have ab: "\<not> ext_present self ! 2" using walk_inv_absent [OF inv _ _ len] by simp
    have fit: "pos + 1 \<le> length b" using getitem_len [OF Inr] bd by simp
    have "ext_stored (self\<lparr>CTEInfo := Some v\<rparr>) = ext_stored self + 1"
      using ab by (simp add: stored_upd)
    also have "\<dots> \<le> min (pos + 1) (length b) - 4" using st p fit by (rule stored_item)
    finally have s': "ext_stored (self\<lparr>CTEInfo := Some v\<rparr>) \<le> min (pos + 1) (length b) - 4" .
    have "walk_inv b c fl (Suc 2) (None, self\<lparr>CTEInfo := Some v\<rparr>, pos + 1)"
      using inv _ _ len _ _ _ s'
    proof (rule walk_inv_set)
      show "fl ! 2" using fl True by simp
    qed (use p in \<open>simp_all add: present_upd\<close>)
    with True Inr show ?thesis by (simp add: walk_CTEInfo_def)
  qed
qed

lemma step_AdvDataInfo_inv:
  assumes inv: "walk_inv b c fl 3 (None, self, pos)" and len: "length fl = 8"
    and fl: "fl ! 3 = (hdrFlags AND 0x08 \<noteq> 0)"
  shows "walk_inv b c fl (Suc 3) (walk_AdvDataInfo new hdrFlags self pos)"
proof (cases "hdrFlags AND 0x08 \<noteq> 0")
  case False
  with fl have "\<not> fl ! 3" by simp
  from walk_inv_skip [OF inv this _ len] False show ?thesis
    by (simp add: walk_AdvDataInfo_def)
next
  case True
  show ?thesis
  proof (cases "AdvDataInfo_init new (slice (body self) pos (pos + 2))")
    case (Inl e)
    with True have "walk_AdvDataInfo new hdrFlags self pos = (Some e, self, pos)"
      by (simp add: walk_AdvDataInfo_def)
    with inv show ?thesis by (simp add: walk_inv_errI)
  next
    case (Inr v)
    from walk_inv_stored [OF inv] have st: "ext_stored self \<le> min pos (length b) - 4"
      and p: "4 \<le> pos" and bd: "body self = b" by simp_all
    have ab: "\<not> ext_present self ! 3" using walk_inv_absent [OF inv _ _ len] by simp
    have fit: "pos + 2 \<le> length b" using slice_fits [OF AdvDataInfo_init_len [OF Inr]] bd by simp
    have "ext_stored (self\<lparr>AdvDataInfo := Some v\<rparr>) = ext_stored self + 2"
      using ab by (simp add: stored_upd)
    also have "\<dots> \<le> min (pos + 2) (length b) - 4" using st p fit by (rule stored_item)
    finally have s': "ext_stored (self\<lparr>AdvDataInfo := Some v\<rparr>) \<le> min (pos + 2) (length b) - 4" .
    have "walk_inv b c fl (Suc 3) (None, self\<lparr>AdvDataInfo := Some v\<rparr>, pos + 2)"
      using inv _ _ len _ _ _ s'
    proof (rule walk_inv_set)
      show "fl ! 3" using fl True by simp
    qed (use p in \<open>simp_all add: present_upd\<close>)
    with True Inr show ?thesis by (simp add: walk_AdvDataInfo_def)
  qed
qed

lemma step_AuxPtr_inv:
  assumes inv: "walk_inv b c fl 4 (None, self, pos)" and len: "length fl = 8"
    and fl: "fl ! 4 = (hdrFlags AND 0x10 \<noteq> 0)"
  shows "walk_inv b c fl (Suc 4) (walk_AuxPtr hdrFlags self pos)"
proof (cases "hdrFlags AND 0x10 \<noteq> 0")
  case False
  with fl have "\<not> fl ! 4" by simp
  from walk_inv_skip [OF inv this _ len] False show ?thesis
    by (simp add: walk_AuxPtr_def)
next
  case True
  show ?thesis
  proof (cases "AuxPtr_init (slice (body self) pos (pos + 3))")
    case (Inl e)
    with True have "walk_AuxPtr hdrFlags self pos = (Some e, self, pos)"
      by (simp add: walk_AuxPtr_def)
    with inv show ?thesis by (simp add: walk_inv_errI)
  next
    case (Inr v)
    from walk_inv_stored [OF inv] have st: "ext_stored self \<le> min pos (length b) - 4"
      and p: "4 \<le> pos" and bd: "body self = b" by simp_all
    have ab: "\<not> ext_present self ! 4" using walk_inv_absent [OF inv _ _ len] by simp
    have fit: "pos + 3 \<le> length b" using slice_fits [OF AuxPtr_init_len [OF Inr]] bd by simp
    have "ext_stored (self\<lparr>AuxPtr := Some v\<rparr>) = ext_stored self + 3"
      using ab by (simp add: stored_upd)
    also have "\<dots> \<le> min (pos + 3) (length b) - 4" using st p fit by (rule stored_item)
    finally have s': "ext_stored (self\<lparr>AuxPtr := Some v\<rparr>) \<le> min (pos + 3) (length b) - 4" .
    have "walk_inv b c fl (Suc 4) (None, self\<lparr>AuxPtr := Some v\<rparr>, pos + 3)"
      using inv _ _ len _ _ _ s'
    proof (rule walk_inv_set)
      show "fl ! 4" using fl True by simp
    qed (use p in \<open>simp_all add: present_upd\<close>)
    with True Inr show ?thesis by (simp add: walk_AuxPtr_def)
  qed
qed

lemma step_SyncInfo_inv:
  assumes inv: "walk_inv b c fl 5 (None, self, pos)" and len: "length fl = 8"
    and fl: "fl ! 5 = (hdrFlags AND 0x20 \<noteq> 0)"
  shows "walk_inv b c fl (Suc 5) (walk_SyncInfo hdrFlags self pos)"
proof (cases "hdrFlags AND 0x20 \<noteq> 0")
  case False
  with fl have "\<not> fl ! 5" by simp
  from walk_inv_skip [OF inv this _ len] False show ?thesis
    by (simp add: walk_SyncInfo_def)
next
  case True
  let ?x = "slice (body self) pos (pos + 18)"
  from walk_inv_stored [OF inv] have st: "ext_stored self \<le> min pos (length b) - 4"
    and p: "4 \<le> pos" and bd: "body self = b" by simp_all
  have ab: "\<not> ext_present self ! 5" using walk_inv_absent [OF inv _ _ len] by simp
  have "ext_stored (self\<lparr>SyncInfo := Some ?x\<rparr>) = ext_stored self + min 18 (length b - pos)"
    using ab bd by (simp add: stored_upd slice_length)
  also have "\<dots> \<le> min (pos + 18) (length b) - 4" using st p by (rule stored_slice)
  finally have s': "ext_stored (self\<lparr>SyncInfo := Some ?x\<rparr>) \<le> min (pos + 18) (length b) - 4" .
  have "walk_inv b c fl (Suc 5) (None, self\<lparr>SyncInfo := Some ?x\<rparr>, pos + 18)"
    using inv _ _ len _ _ _ s'
  proof (rule walk_inv_set)
    show "fl ! 5" using fl True by simp
  qed (use p in \<open>simp_all add: present_upd\<close>)
  with True show ?thesis by (simp add: walk_SyncInfo_def)
qed

lemma step_TxPower_inv:
  assumes inv: "walk_inv b c fl 6 (None, self, pos)" and len: "length fl = 8"
    and fl: "fl ! 6 = (hdrFlags AND 0x40 \<noteq> 0)"
  shows "walk_inv b c fl (Suc 6) (walk_TxPower hdrFlags self pos)"
proof (cases "hdrFlags AND 0x40 \<noteq> 0")
  case False
  with fl have "\<not> fl ! 6" by simp
  from walk_inv_skip [OF inv this _ len] False show ?thesis
    by (simp add: walk_TxPower_def)
next
  case True
  show ?thesis
  proof (cases "unpack_b (slice (body self) pos (pos + 1))")
    case (Inl e)
    with True have "walk_TxPower hdrFlags self pos = (Some e, self, pos)"
      by (simp add: walk_TxPower_def)
    with inv show ?thesis by (simp add: walk_inv_errI)
  next
    case (Inr v)
    from walk_inv_stored [OF inv] have st: "ext_stored self \<le> min pos (length b) - 4"
      and p: "4 \<le> pos" and bd: "body self = b" by simp_all
    have ab: "\<not> ext_present self ! 6" using walk_inv_absent [OF inv _ _ len] by simp
    have fit: "pos + 1 \<le> length b" using slice_fits [OF unpack_b_len [OF Inr]] bd by simp
    have "ext_stored (self\<lparr>TxPower := Some v\<rparr>) = ext_stored self + 1"
      using ab by (simp add: stored_upd)
    also have "\<dots> \<le> min (pos + 1) (length b) - 4" using st p fit by (rule stored_item)
    finally have s': "ext_stored (self\<lparr>TxPower := Some v\<rparr>) \<le> min (pos + 1) (length b) - 4" .
    have "walk_inv b c fl (Suc 6) (None, self\<lparr>TxPower := Some v\<rparr>, pos + 1)"
      using inv _ _ len _ _ _ s'
    proof (rule walk_inv_set)
      show "fl ! 6" using fl True by simp
    qed (use p in \<open>simp_all add: present_upd\<close>)
    with True Inr show ?thesis by (simp add: walk_TxPower_def)
  qed
qed


lemma step_ACAD_inv:
  assumes inv: "walk_inv b c fl 7 (None, self, pos)" and len: "length fl = 8"
    and fl: "fl ! 7 = (int pos - 3 < hdrBodyLen)"
  shows "walk_inv b c fl (Suc 7) (walk_ACAD hdrBodyLen self pos)"
proof (cases "int pos - 3 < hdrBodyLen")
  case False
  with fl have "\<not> fl ! 7" by simp
  from walk_inv_skip [OF inv this _ len] False show ?thesis
    by (simp add: walk_ACAD_def)
next
  case True
  let ?k = "nat (hdrBodyLen - (int pos - 3))"
  let ?x = "slice (body self) pos (pos + ?k)"
  from walk_inv_stored [OF inv] have st: "ext_stored self \<le> min pos (length b) - 4"
    and p: "4 \<le> pos" and bd: "body self = b" by simp_all
  have ab: "\<not> ext_present self ! 7" using walk_inv_absent [OF inv _ _ len] by simp
  have "ext_stored (self\<lparr>ACAD := Some ?x\<rparr>) = ext_stored self + min ?k (length b - pos)"
    using ab bd by (simp add: stored_upd slice_length)
  also have "\<dots> \<le> min (pos + ?k) (length b) - 4" using st p by (rule stored_slice)
  finally have s': "ext_stored (self\<lparr>ACAD := Some ?x\<rparr>) \<le> min (pos + ?k) (length b) - 4" .
  have "walk_inv b c fl (Suc 7) (None, self\<lparr>ACAD := Some ?x\<rparr>, pos + ?k)"
    using inv _ _ len _ _ _ s'
  proof (rule walk_inv_set)
    show "fl ! 7" using fl True by simp
  qed (use p in \<open>simp_all add: present_upd\<close>)
  with True show ?thesis by (simp add: walk_ACAD_def Let_def)
qed

lemma walk_inv_last:
  assumes "walk_inv b c (fl @ [x]) n w" and "n \<le> 7" and "length fl = 7"
  shows "walk_inv b c (fl @ [y]) n w"
proof (cases w)
  case (fields e self pos)
  have "\<And>k. k \<le> n \<Longrightarrow> take k (fl @ [x]) = take k (fl @ [y])"
    using assms(2,3) by simp
  with assms(1) fields show ?thesis
    by (auto simp: walk_inv_def split: option.splits)
qed

lemma ext_flagged_length: "length (ext_flagged f @ [x]) = 8"
  by (simp add: ext_flagged_def)

lemma ext_flagged_nth:
  "(ext_flagged f @ [x]) ! 0 = (f AND 0x01 \<noteq> 0)"
  "(ext_flagged f @ [x]) ! 1 = (f AND 0x02 \<noteq> 0)"
  "(ext_flagged f @ [x]) ! 2 = (f AND 0x04 \<noteq> 0)"
  "(ext_flagged f @ [x]) ! 3 = (f AND 0x08 \<noteq> 0)"
  "(ext_flagged f @ [x]) ! 4 = (f AND 0x10 \<noteq> 0)"
  "(ext_flagged f @ [x]) ! 5 = (f AND 0x20 \<noteq> 0)"
  "(ext_flagged f @ [x]) ! 6 = (f AND 0x40 \<noteq> 0)"
  "(ext_flagged f @ [x]) ! 7 = x"
  by (simp_all add: ext_flagged_def)


lemma ext_present_AdvMode [simp]:
  "ext_present (d\<lparr>AdvMode := m\<rparr>) = ext_present d"
  "ext_stored (d\<lparr>AdvMode := m\<rparr>) = ext_stored d"
  by (simp_all add: ext_present_def ext_stored_def)

lemma ext_offset_Suc:
  "ext_offset F (Suc n) = ext_offset F n + (if F ! n then ext_sizes ! n else 0)"
  by (simp add: ext_offset_def)

lemma ext_offset_0: "ext_offset F 0 = 4"
  by (simp add: ext_offset_def)

lemma trk_skip:
  assumes "walk_trk new b F hl n (None, self, pos)" and "\<not> F ! n"
  shows "walk_trk new b F hl (Suc n) (None, self, pos)"
  using assms
  by (auto simp: walk_trk_def ext_offset_Suc ext_read_fails_def less_Suc_eq)

lemma trk_set:
  assumes "walk_trk new b F hl n (None, self, pos)" and "F ! n"
    and "\<not> (ext_indexed ! n \<and> length b < pos + ext_sizes ! n)"
    and "ext_values new b F hl self'"
  shows "walk_trk new b F hl (Suc n) (None, self', pos + ext_sizes ! n)"
  using assms
  by (auto simp: walk_trk_def ext_offset_Suc ext_read_fails_def less_Suc_eq)

lemma trk_fail:
  assumes "walk_trk new b F hl n (None, self, pos)" and "F ! n" and "ext_indexed ! n"
    and "length b < pos + ext_sizes ! n"
    and "ext_present self = take n (F @ [False]) @ replicate (8 - n) False"
  shows "walk_trk new b F hl (Suc n) (Some e, self, pos)"
proof -
  from assms have "stopped_at F (length b) self n"
    by (simp add: walk_trk_def stopped_at_def ext_read_fails_def)
  with assms(1) show ?thesis by (auto simp: walk_trk_def)
qed

lemma trk_err:
  assumes "walk_trk new b F hl n (Some e, self, pos)" and "n \<le> m"
  shows "walk_trk new b F hl m (Some e, self, pos)"
  using assms by (auto simp: walk_trk_def intro: less_le_trans)

lemma trk_facts:
  assumes "walk_trk new b F hl n (None, self, pos)"
  shows "pos = ext_offset F n" and "ext_values new b F hl self"
  using assms by (simp_all add: walk_trk_def)

lemma values_upd:
  assumes "ext_values new b F hl d"
  shows
  "ext_values new b F hl (d\<lparr>AdvA := Some (slice b (ext_offset F 0) (ext_offset F 0 + 6))\<rparr>)"
  "ext_values new b F hl (d\<lparr>TargetA := Some (slice b (ext_offset F 1) (ext_offset F 1 + 6))\<rparr>)"
  "getitem b (ext_offset F 2) = Inr v2 \<Longrightarrow> ext_values new b F hl (d\<lparr>CTEInfo := Some v2\<rparr>)"
  "AdvDataInfo_init new (slice b (ext_offset F 3) (ext_offset F 3 + 2)) = Inr v3 \<Longrightarrow>
     ext_values new b F hl (d\<lparr>AdvDataInfo := Some v3\<rparr>)"
  "AuxPtr_init (slice b (ext_offset F 4) (ext_offset F 4 + 3)) = Inr v4 \<Longrightarrow>
     ext_values new b F hl (d\<lparr>AuxPtr := Some v4\<rparr>)"
  "ext_values new b F hl (d\<lparr>SyncInfo := Some (slice b (ext_offset F 5) (ext_offset F 5 + 18))\<rparr>)"
  "unpack_b (slice b (ext_offset F 6) (ext_offset F 6 + 1)) = Inr v6 \<Longrightarrow>
     ext_values new b F hl (d\<lparr>TxPower := Some v6\<rparr>)"
  "ext_values new b F hl (d\<lparr>ACAD := Some (slice b (ext_offset F 7)
      (ext_offset F 7 + nat (hl - (int (ext_offset F 7) - 3))))\<rparr>)"
  using assms by (simp_all add: ext_values_def)


lemma ext_sizes_nth:
  "ext_sizes ! 0 = 6" "ext_sizes ! 1 = 6" "ext_sizes ! 2 = 1" "ext_sizes ! 3 = 2"
  "ext_sizes ! 4 = 3" "ext_sizes ! 5 = 18" "ext_sizes ! 6 = 1" "ext_sizes ! Suc 0 = 6"
  by (simp_all add: ext_sizes_def)

lemma ext_indexed_nth:
  "\<not> ext_indexed ! 0" "\<not> ext_indexed ! 1" "ext_indexed ! 2" "ext_indexed ! 3"
  "ext_indexed ! 4" "\<not> ext_indexed ! 5" "ext_indexed ! 6" "\<not> ext_indexed ! Suc 0"
  by (simp_all add: ext_indexed_def)

lemma getitem_fail: "getitem x i = Inl e \<Longrightarrow> length x < i + 1"
  by (auto simp: getitem_def split: if_splits)

lemma slice_short: "length (slice x pos (pos + k)) < k \<Longrightarrow> length x < pos + k"
  unfolding slice_length by arith

lemma AdvDataInfo_init_fail: "AdvDataInfo_init new x = Inl e \<Longrightarrow> length x < 2"
  by (auto simp: AdvDataInfo_init_def getitem_def err_bind_def split: if_splits)

lemma AuxPtr_init_fail: "AuxPtr_init x = Inl e \<Longrightarrow> length x < 3"
  by (auto simp: AuxPtr_init_def getitem_def err_bind_def Let_def split: if_splits)

lemma unpack_b_fail: "unpack_b (slice x pos (pos + 1)) = Inl e \<Longrightarrow> length (slice x pos (pos + 1)) < 1"
proof -
  assume a: "unpack_b (slice x pos (pos + 1)) = Inl e"
  have "length (slice x pos (pos + 1)) \<le> 1" by (simp add: slice_length)
  moreover from a have "length (slice x pos (pos + 1)) \<noteq> 1"
    by (auto simp: unpack_b_def split: list.splits)
  ultimately show ?thesis by arith
qed

lemma walk_inv_present:
  "walk_inv b c fl n (None, self, pos) \<Longrightarrow>
     ext_present self = take n fl @ replicate (8 - n) False"
  by (simp add: walk_inv_def)

lemma trk_AdvA:
  assumes t: "walk_trk new b F hl 0 (None, self, pos)" and bd: "body self = b"
    and fl: "F ! 0 = (hdrFlags AND 0x01 \<noteq> 0)"
  shows "walk_trk new b F hl (Suc 0) (walk_AdvA hdrFlags self pos)"
proof (cases "hdrFlags AND 0x01 \<noteq> 0")
  case False
  with fl have "\<not> F ! 0" by simp
  from trk_skip [OF t this] False show ?thesis by (simp add: walk_AdvA_def)
next
  case True
  from trk_facts [OF t] have p: "pos = ext_offset F 0" and v: "ext_values new b F hl self"
    by simp_all
  have "walk_trk new b F hl (Suc 0)
          (None, self\<lparr>AdvA := Some (slice b pos (pos + 6))\<rparr>, pos + ext_sizes ! 0)"
    using t
  proof (rule trk_set)
    show "F ! 0" using fl True by simp
    show "\<not> (ext_indexed ! 0 \<and> length b < pos + ext_sizes ! 0)"
      by (simp add: ext_indexed_nth)
    show "ext_values new b F hl (self\<lparr>AdvA := Some (slice b pos (pos + 6))\<rparr>)"
      unfolding p by (rule values_upd(1) [OF v])
  qed
  with True bd show ?thesis by (simp add: walk_AdvA_def ext_sizes_nth)
qed

lemma trk_TargetA:
  assumes t: "walk_trk new b F hl 1 (None, self, pos)" and bd: "body self = b"
    and fl: "F ! 1 = (hdrFlags AND 0x02 \<noteq> 0)"
  shows "walk_trk new b F hl (Suc 1) (walk_TargetA hdrFlags self pos)"
proof (cases "hdrFlags AND 0x02 \<noteq> 0")
  case False
  with fl have "\<not> F ! 1" by simp
  from trk_skip [OF t this] False show ?thesis by (simp add: walk_TargetA_def)
next
  case True
  from trk_facts [OF t] have p: "pos = ext_offset F 1" and v: "ext_values new b F hl self"
    by simp_all
  have "walk_trk new b F hl (Suc 1)
          (None, self\<lparr>TargetA := Some (slice b pos (pos + 6))\<rparr>, pos + ext_sizes ! 1)"
    using t
  proof (rule trk_set)
    show "F ! 1" using fl True by simp
    show "\<not> (ext_indexed ! 1 \<and> length b < pos + ext_sizes ! 1)"
      by (simp add: ext_indexed_nth)
    show "ext_values new b F hl (self\<lparr>TargetA := Some (slice b pos (pos + 6))\<rparr>)"
      unfolding p by (rule values_upd(2) [OF v])
  qed
  with True bd show ?thesis by (simp add: walk_TargetA_def ext_sizes_nth)
qed

lemma trk_CTEInfo:
  assumes t: "walk_trk new b F hl 2 (None, self, pos)" and bd: "body self = b"
    and fl: "F ! 2 = (hdrFlags AND 0x04 \<noteq> 0)"
    and inv: "walk_inv b c (F @ [False]) 2 (None, self, pos)"
  shows "walk_trk new b F hl (Suc 2) (walk_CTEInfo hdrFlags self pos)"
proof (cases "hdrFlags AND 0x04 \<noteq> 0")
  case False
  with fl have "\<not> F ! 2" by simp
  from trk_skip [OF t this] False show ?thesis by (simp add: walk_CTEInfo_def)
next
  case True
  with fl have f: "F ! 2" by simp
  from trk_facts [OF t] have p: "pos = ext_offset F 2" and v: "ext_values new b F hl self"
    by simp_all
  show ?thesis
  proof (cases "getitem b pos")
    case (Inl e)
    have short: "length b < pos + ext_sizes ! 2" using getitem_fail [OF Inl] by (simp add: ext_sizes_nth)
    from trk_fail [OF t f _ short walk_inv_present [OF inv], of e]
    have "walk_trk new b F hl (Suc 2) (Some e, self, pos)" by (simp add: ext_indexed_nth)
    with True Inl bd show ?thesis by (simp add: walk_CTEInfo_def)
  next
    case (Inr x)
    have fit: "pos + 1 \<le> length b" using getitem_len [OF Inr] by simp
    have "walk_trk new b F hl (Suc 2) (None, self\<lparr>CTEInfo := Some x\<rparr>, pos + ext_sizes ! 2)"
      using t f
    proof (rule trk_set)
      show "\<not> (ext_indexed ! 2 \<and> length b < pos + ext_sizes ! 2)"
        using fit by (simp add: ext_sizes_nth)
      show "ext_values new b F hl (self\<lparr>CTEInfo := Some x\<rparr>)"
        using Inr bd unfolding p by (intro values_upd(3) [OF v]) simp
    qed
    with True Inr bd show ?thesis by (simp add: walk_CTEInfo_def ext_sizes_nth)
  qed
qed

lemma trk_AdvDataInfo:
  assumes t: "walk_trk new b F hl 3 (None, self, pos)" and bd: "body self = b"
    and fl: "F ! 3 = (hdrFlags AND 0x08 \<noteq> 0)"
    and inv: "walk_inv b c (F @ [False]) 3 (None, self, pos)"
  shows "walk_trk new b F hl (Suc 3) (walk_AdvDataInfo new hdrFlags self pos)"
proof (cases "hdrFlags AND 0x08 \<noteq> 0")
  case False
  with fl have "\<not> F ! 3" by simp
  from trk_skip [OF t this] False show ?thesis by (simp add: walk_AdvDataInfo_def)
next
  case True
  with fl have f: "F ! 3" by simp
  from trk_facts [OF t] have p: "pos = ext_offset F 3" and v: "ext_values new b F hl self"
    by simp_all
  show ?thesis
  proof (cases "AdvDataInfo_init new (slice b pos (pos + 2))")
    case (Inl e)
    have short: "length b < pos + ext_sizes ! 3" using slice_short [OF AdvDataInfo_init_fail [OF Inl]] by (simp add: ext_sizes_nth)
    from trk_fail [OF t f _ short walk_inv_present [OF inv], of e]
    have "walk_trk new b F hl (Suc 3) (Some e, self, pos)" by (simp add: ext_indexed_nth)
    with True Inl bd show ?thesis by (simp add: walk_AdvDataInfo_def)
  next
    case (Inr x)
    have fit: "pos + 2 \<le> length b" using slice_fits [OF AdvDataInfo_init_len [OF Inr]] by simp
    have "walk_trk new b F hl (Suc 3) (None, self\<lparr>AdvDataInfo := Some x\<rparr>, pos + ext_sizes ! 3)"
      using t f
    proof (rule trk_set)
      show "\<not> (ext_indexed ! 3 \<and> length b < pos + ext_sizes ! 3)"
        using fit by (simp add: ext_sizes_nth)
      show "ext_values new b F hl (self\<lparr>AdvDataInfo := Some x\<rparr>)"
        using Inr bd unfolding p by (intro values_upd(4) [OF v]) simp
    qed
    with True Inr bd show ?thesis by (simp add: walk_AdvDataInfo_def ext_sizes_nth)
  qed
qed

lemma trk_AuxPtr:
  assumes t: "walk_trk new b F hl 4 (None, self, pos)" and bd: "body self = b"
    and fl: "F ! 4 = (hdrFlags AND 0x10 \<noteq> 0)"
    and inv: "walk_inv b c (F @ [False]) 4 (None, self, pos)"
  shows "walk_trk new b F hl (Suc 4) (walk_AuxPtr hdrFlags self pos)"
proof (cases "hdrFlags AND 0x10 \<noteq> 0")
  case False
  with fl have "\<not> F ! 4" by simp
  from trk_skip [OF t this] False show ?thesis by (simp add: walk_AuxPtr_def)
next
  case True
  with fl have f: "F ! 4" by simp
  from trk_facts [OF t] have p: "pos = ext_offset F 4" and v: "ext_values new b F hl self"
    by simp_all
  show ?thesis
  proof (cases "AuxPtr_init (slice b pos (pos + 3))")
    case (Inl e)
    have short: "length b < pos + ext_sizes ! 4" using slice_short [OF AuxPtr_init_fail [OF Inl]] by (simp add: ext_sizes_nth)
    from trk_fail [OF t f _ short walk_inv_present [OF inv], of e]
    have "walk_trk new b F hl (Suc 4) (Some e, self, pos)" by (simp add: ext_indexed_nth)
    with True Inl bd show ?thesis by (simp add: walk_AuxPtr_def)
  next
    case (Inr x)
    have fit: "pos + 3 \<le> length b" using slice_fits [OF AuxPtr_init_len [OF Inr]] by simp
    have "walk_trk new b F hl (Suc 4) (None, self\<lparr>AuxPtr := Some x\<rparr>, pos + ext_sizes ! 4)"
      using t f
    proof (rule trk_set)
      show "\<not> (ext_indexed ! 4 \<and> length b < pos + ext_sizes ! 4)"
        using fit by (simp add: ext_sizes_nth)
      show "ext_values new b F hl (self\<lparr>AuxPtr := Some x\<rparr>)"
        using Inr bd unfolding p by (intro values_upd(5) [OF v]) simp
    qed
    with True Inr bd show ?thesis by (simp add: walk_AuxPtr_def ext_sizes_nth)
  qed
qed

lemma trk_SyncInfo:
  assumes t: "walk_trk new b F hl 5 (None, self, pos)" and bd: "body self = b"
    and fl: "F ! 5 = (hdrFlags AND 0x20 \<noteq> 0)"
  shows "walk_trk new b F hl (Suc 5) (walk_SyncInfo hdrFlags self pos)"
proof (cases "hdrFlags AND 0x20 \<noteq> 0")
  case False
  with fl have "\<not> F ! 5" by simp
  from trk_skip [OF t this] False show ?thesis by (simp add: walk_SyncInfo_def)
next
  case True
  from trk_facts [OF t] have p: "pos = ext_offset F 5" and v: "ext_values new b F hl self"
    by simp_all
  have "walk_trk new b F hl (Suc 5)
          (None, self\<lparr>SyncInfo := Some (slice b pos (pos + 18))\<rparr>, pos + ext_sizes ! 5)"
    using t
  proof (rule trk_set)
    show "F ! 5" using fl True by simp
    show "\<not> (ext_indexed ! 5 \<and> length b < pos + ext_sizes ! 5)"
      by (simp add: ext_indexed_nth)
    show "ext_values new b F hl (self\<lparr>SyncInfo := Some (slice b pos (pos + 18))\<rparr>)"
      unfolding p by (rule values_upd(6) [OF v])
  qed
  with True bd show ?thesis by (simp add: walk_SyncInfo_def ext_sizes_nth)
qed

lemma trk_TxPower:
  assumes t: "walk_trk new b F hl 6 (None, self, pos)" and bd: "body self = b"
    and fl: "F ! 6 = (hdrFlags AND 0x40 \<noteq> 0)"
    and inv: "walk_inv b c (F @ [False]) 6 (None, self, pos)"
  shows "walk_trk new b F hl (Suc 6) (walk_TxPower hdrFlags self pos)"
proof (cases "hdrFlags AND 0x40 \<noteq> 0")
  case False
  with fl have "\<not> F ! 6" by simp
  from trk_skip [OF t this] False show ?thesis by (simp add: walk_TxPower_def)
next
  case True
  with fl have f: "F ! 6" by simp
  from trk_facts [OF t] have p: "pos = ext_offset F 6" and v: "ext_values new b F hl self"
    by simp_all
  show ?thesis
  proof (cases "unpack_b (slice b pos (pos + 1))")
    case (Inl e)
    have short: "length b < pos + ext_sizes ! 6" using slice_short [OF unpack_b_fail [OF Inl]] by (simp add: ext_sizes_nth)
    from trk_fail [OF t f _ short walk_inv_present [OF inv], of e]
    have "walk_trk new b F hl (Suc 6) (Some e, self, pos)" by (simp add: ext_indexed_nth)
    with True Inl bd show ?thesis by (simp add: walk_TxPower_def)
  next
    case (Inr x)
    have fit: "pos + 1 \<le> length b" using slice_fits [OF unpack_b_len [OF Inr]] by simp
    have "walk_trk new b F hl (Suc 6) (None, self\<lparr>TxPower := Some x\<rparr>, pos + ext_sizes ! 6)"
      using t f
    proof (rule trk_set)
      show "\<not> (ext_indexed ! 6 \<and> length b < pos + ext_sizes ! 6)"
        using fit by (simp add: ext_sizes_nth)
      show "ext_values new b F hl (self\<lparr>TxPower := Some x\<rparr>)"
        using Inr bd unfolding p by (intro values_upd(7) [OF v]) simp
    qed
    with True Inr bd show ?thesis by (simp add: walk_TxPower_def ext_sizes_nth)
  qed
qed


lemma walk_then_both:
  assumes "walk_both new b c F hl n w"
    and "\<And>self pos. walk_both new b c F hl n (None, self, pos) \<Longrightarrow>
           walk_both new b c F hl (Suc n) (f self pos)"
  shows "walk_both new b c F hl (Suc n) (walk_then w f)"
proof (cases w)
  case (fields e self pos)
  show ?thesis
  proof (cases e)
    case None
    with fields assms show ?thesis by (simp add: walk_then_def)
  next
    case (Some x)
    with fields assms(1) have "walk_inv b c (F @ [False]) n (Some x, self, pos)"
      and "walk_trk new b F hl n (Some x, self, pos)" by (simp_all add: walk_both_def)
    then have "walk_inv b c (F @ [False]) (Suc n) (Some x, self, pos)"
      and "walk_trk new b F hl (Suc n) (Some x, self, pos)"
      by (auto intro: walk_inv_err trk_err)
    with fields Some show ?thesis by (simp add: walk_then_def walk_both_def)
  qed
qed

lemma ext_flagged_nth7:
  "ext_flagged f ! 0 = (f AND 0x01 \<noteq> 0)"
  "ext_flagged f ! 1 = (f AND 0x02 \<noteq> 0)"
  "ext_flagged f ! 2 = (f AND 0x04 \<noteq> 0)"
  "ext_flagged f ! 3 = (f AND 0x08 \<noteq> 0)"
  "ext_flagged f ! 4 = (f AND 0x10 \<noteq> 0)"
  "ext_flagged f ! 5 = (f AND 0x20 \<noteq> 0)"
  "ext_flagged f ! 6 = (f AND 0x40 \<noteq> 0)"
  by (simp_all add: ext_flagged_def)

lemma walk7_both:
  assumes init: "walk_both new b c (ext_flagged f) hl 0 (None, self1, 4)"
  shows "walk_both new b c (ext_flagged f) hl 7
           (walk_then (walk_then (walk_then (walk_then (walk_then (walk_then
              (walk_AdvA f self1 4)
              (walk_TargetA f))
              (walk_CTEInfo f))
              (walk_AdvDataInfo new f))
              (walk_AuxPtr f))
              (walk_SyncInfo f))
              (walk_TxPower f))"
proof -
  let ?F = "ext_flagged f"
  let ?J = "walk_both new b c ?F hl"
  note len = ext_flagged_length [of f False]
  note nth = ext_flagged_nth [of f False]
  note nth7 = ext_flagged_nth7 [of f]
  have bd: "\<And>n self pos. ?J n (None, self, pos) \<Longrightarrow> body self = b"
    by (simp add: walk_both_def walk_inv_def)
  let ?w1 = "walk_AdvA f self1 4"
  let ?w2 = "walk_then ?w1 (walk_TargetA f)"
  let ?w3 = "walk_then ?w2 (walk_CTEInfo f)"
  let ?w4 = "walk_then ?w3 (walk_AdvDataInfo new f)"
  let ?w5 = "walk_then ?w4 (walk_AuxPtr f)"
  let ?w6 = "walk_then ?w5 (walk_SyncInfo f)"
  let ?w7 = "walk_then ?w6 (walk_TxPower f)"
  have i1: "?J (Suc 0) ?w1"
    using init step_AdvA_inv [OF _ len nth(1)] trk_AdvA [OF _ bd [OF init] nth7(1)]
    by (simp add: walk_both_def)
  have i2: "?J (Suc (Suc 0)) ?w2"
  proof (rule walk_then_both [OF i1])
    fix self pos assume a: "?J (Suc 0) (None, self, pos)"
    then have "walk_inv b c (?F @ [False]) 1 (None, self, pos)"
      and "walk_trk new b ?F hl 1 (None, self, pos)" by (simp_all add: walk_both_def)
    from step_TargetA_inv [OF this(1) len nth(2)] trk_TargetA [OF this(2) bd [OF a] nth7(2)]
    show "?J (Suc (Suc 0)) (walk_TargetA f self pos)" by (simp add: walk_both_def)
  qed
  have i3: "?J (Suc 2) ?w3"
  proof (rule walk_then_both [of new b c ?F hl 2, OF _])
    show "?J 2 ?w2" using i2 by (simp add: numeral_2_eq_2)
    fix self pos assume a: "?J 2 (None, self, pos)"
    then have "walk_inv b c (?F @ [False]) 2 (None, self, pos)"
      and "walk_trk new b ?F hl 2 (None, self, pos)" by (simp_all add: walk_both_def)
    from step_CTEInfo_inv [OF this(1) len nth(3)]
      trk_CTEInfo [OF this(2) bd [OF a] nth7(3) this(1)]
    show "?J (Suc 2) (walk_CTEInfo f self pos)" by (simp add: walk_both_def)
  qed
  have i4: "?J (Suc 3) ?w4"
  proof (rule walk_then_both [of new b c ?F hl 3, OF _])
    show "?J 3 ?w3" using i3 by simp
    fix self pos assume a: "?J 3 (None, self, pos)"
    then have "walk_inv b c (?F @ [False]) 3 (None, self, pos)"
      and "walk_trk new b ?F hl 3 (None, self, pos)" by (simp_all add: walk_both_def)
    from step_AdvDataInfo_inv [OF this(1) len nth(4)]
      trk_AdvDataInfo [OF this(2) bd [OF a] nth7(4) this(1)]
    show "?J (Suc 3) (walk_AdvDataInfo new f self pos)" by (simp add: walk_both_def)
  qed
  have i5: "?J (Suc 4) ?w5"
  proof (rule walk_then_both [of new b c ?F hl 4, OF _])
    show "?J 4 ?w4" using i4 by simp
    fix self pos assume a: "?J 4 (None, self, pos)"
    then have "walk_inv b c (?F @ [False]) 4 (None, self, pos)"
      and "walk_trk new b ?F hl 4 (None, self, pos)" by (simp_all add: walk_both_def)
    from step_AuxPtr_inv [OF this(1) len nth(5)]
      trk_AuxPtr [OF this(2) bd [OF a] nth7(5) this(1)]
    show "?J (Suc 4) (walk_AuxPtr f self pos)" by (simp add: walk_both_def)
  qed
  have i6: "?J (Suc 5) ?w6"
  proof (rule walk_then_both [of new b c ?F hl 5, OF _])
    show "?J 5 ?w5" using i5 by simp
    fix self pos assume a: "?J 5 (None, self, pos)"
    then have "walk_inv b c (?F @ [False]) 5 (None, self, pos)"
      and "walk_trk new b ?F hl 5 (None, self, pos)" by (simp_all add: walk_both_def)
    from step_SyncInfo_inv [OF this(1) len nth(6)] trk_SyncInfo [OF this(2) bd [OF a] nth7(6)]
    show "?J (Suc 5) (walk_SyncInfo f self pos)" by (simp add: walk_both_def)
  qed
  have i7: "?J (Suc 6) ?w7"
  proof (rule walk_then_both [of new b c ?F hl 6, OF _])
    show "?J 6 ?w6" using i6 by simp
    fix self pos assume a: "?J 6 (None, self, pos)"
    then have "walk_inv b c (?F @ [False]) 6 (None, self, pos)"
      and "walk_trk new b ?F hl 6 (None, self, pos)" by (simp_all add: walk_both_def)
    from step_TxPower_inv [OF this(1) len nth(7)]
      trk_TxPower [OF this(2) bd [OF a] nth7(7) this(1)]
    show "?J (Suc 6) (walk_TxPower f self pos)" by (simp add: walk_both_def)
  qed
  then show ?thesis by simp
qed


lemma ext_abort_at_first:
  assumes "stopped_at F len self k" and "k < 7"
  shows "ext_abort_at F len = k"
proof -
  from assms have "find (ext_read_fails F len) [0..<7] = Some k"
    unfolding find_Some_iff stopped_at_def
    by (intro exI [of _ k]) (auto simp del: upt_rec_numeral)
  then show ?thesis by (simp add: ext_abort_at_def)
qed

lemma ext_abort_at_none:
  assumes "\<forall>i<7. \<not> ext_read_fails F len i"
  shows "ext_abort_at F len = 7"
proof -
  from assms have "find (ext_read_fails F len) [0..<7] = None"
    unfolding find_None_iff by (auto simp del: upt_rec_numeral)
  then show ?thesis by (simp add: ext_abort_at_def)
qed

lemma stopped_present:
  assumes "stopped_at F len self k" and "k < 7" and "length F = 7"
  shows "ext_present self = take k F @ replicate (7 - k) False @ [False]"
proof -
  have "8 - k = Suc (7 - k)" using assms(2) by arith
  then have "replicate (8 - k) False = replicate (7 - k) False @ [False]"
    by (simp only: replicate_Suc replicate_append_same)
  then show ?thesis using assms by (simp add: stopped_at_def)
qed

lemma walk_final:
  assumes J: "walk_both new b c (ext_flagged f) hl 7 w7"
  shows "let d = fst (snd (walk_then w7 (walk_ACAD hl)));
             F = ext_flagged f; k = ext_abort_at F (length b)
         in body d = b \<and> cls d = c \<and> ext_stored d \<le> length b - 4 \<and>
            ext_values new b F hl d \<and>
            ext_present d = take k F @ replicate (7 - k) False @
                              [k = 7 \<and> int (ext_offset F 7) - 3 < hl]"
proof -
  let ?F = "ext_flagged f"
  have lenF: "length ?F = 7" by (simp add: ext_flagged_def)
  obtain e self pos where w7: "w7 = (e, self, pos)" by (cases w7) auto
  from J w7 have inv: "walk_inv b c (?F @ [False]) 7 (e, self, pos)"
    and trk: "walk_trk new b ?F hl 7 (e, self, pos)" by (simp_all add: walk_both_def)
  show ?thesis
  proof (cases e)
    case (Some x)
    from trk Some obtain k where k: "k < 7" "stopped_at ?F (length b) self k"
      and v: "ext_values new b ?F hl self" by (auto simp: walk_trk_def)
    from inv Some have "body self = b" "cls self = c" "ext_stored self \<le> length b - 4"
      by (auto simp: walk_inv_def)
    moreover from ext_abort_at_first [OF k(2,1)] have "ext_abort_at ?F (length b) = k" .
    moreover note stopped_present [OF k(2,1) lenF] v
    ultimately show ?thesis using w7 Some k(1) by (simp add: walk_then_def Let_def)
  next
    case None
    let ?a = "int pos - 3 < hl"
    from trk None have p: "pos = ext_offset ?F 7" and nf: "\<forall>i<7. \<not> ext_read_fails ?F (length b) i"
      and v: "ext_values new b ?F hl self" by (simp_all add: walk_trk_def)
    from inv None have bd: "body self = b" by (simp add: walk_inv_def)
    from inv None have "walk_inv b c (?F @ [False]) 7 (None, self, pos)" by simp
    then have "walk_inv b c (?F @ [?a]) 7 (None, self, pos)"
      by (rule walk_inv_last) (simp_all add: lenF)
    from step_ACAD_inv [OF this ext_flagged_length ext_flagged_nth(8)]
    have i8: "walk_inv b c (?F @ [?a]) 8 (walk_ACAD hl self pos)" by simp
    obtain self' pos' where r: "walk_ACAD hl self pos = (None, self', pos')"
      by (cases ?a) (simp_all add: walk_ACAD_def Let_def)
    with i8 have "body self' = b" "cls self' = c" "ext_stored self' \<le> length b - 4"
      and pr: "ext_present self' = ?F @ [?a]"
      by (auto simp: walk_inv_def lenF)
    moreover have "ext_values new b ?F hl self'"
    proof (cases ?a)
      case True
      with r bd have "self' = self\<lparr>ACAD := Some (slice b pos (pos + nat (hl - (int pos - 3))))\<rparr>"
        by (auto simp: walk_ACAD_def Let_def)
      then show ?thesis unfolding p using values_upd(8) [OF v] by simp
    next
      case False
      with r have "self' = self" by (simp add: walk_ACAD_def)
      with v show ?thesis by simp
    qed
    moreover from ext_abort_at_none [OF nf] have "ext_abort_at ?F (length b) = 7" .
    ultimately show ?thesis using w7 None r p lenF by (simp add: walk_then_def Let_def)
  qed
qed


lemma walk_then_AdvMode:
  assumes "AdvMode (fst (snd w)) = m"
    and "\<And>self pos. AdvMode self = m \<Longrightarrow> AdvMode (fst (snd (f self pos))) = m"
  shows "AdvMode (fst (snd (walk_then w f))) = m"
  using assms by (cases w) (auto simp: walk_then_def split: option.splits)

lemma walk_steps_AdvMode:
  "AdvMode (fst (snd (walk_AdvA fl self pos))) = AdvMode self"
  "AdvMode (fst (snd (walk_TargetA fl self pos))) = AdvMode self"
  "AdvMode (fst (snd (walk_CTEInfo fl self pos))) = AdvMode self"
  "AdvMode (fst (snd (walk_AdvDataInfo new fl self pos))) = AdvMode self"
  "AdvMode (fst (snd (walk_AuxPtr fl self pos))) = AdvMode self"
  "AdvMode (fst (snd (walk_SyncInfo fl self pos))) = AdvMode self"
  "AdvMode (fst (snd (walk_TxPower fl self pos))) = AdvMode self"
  "AdvMode (fst (snd (walk_ACAD hl self pos))) = AdvMode self"
  by (simp_all add: walk_AdvA_def walk_TargetA_def walk_CTEInfo_def walk_AdvDataInfo_def
        walk_AuxPtr_def walk_SyncInfo_def walk_TxPower_def walk_ACAD_def Let_def
        split: sum.splits)

lemma ext_header_walk_AdvMode:
  "AdvMode (fst (snd (ext_header_walk new self))) =
     (if length (body self) < 3 then AdvMode self
      else Some (drop_bit 6 (uint (body self ! 2))))"
  unfolding ext_header_walk_def Let_def
  by (auto split: sum.splits intro!: walk_then_AdvMode simp: walk_steps_AdvMode)

lemma all_absent:
  assumes "ext_present self = replicate 8 False"
  shows "ext_stored self = 0" and "ext_values new b F hl self"
  using assms
  by (simp_all add: ext_present_def ext_stored_def ext_values_def olen_def osize_def
        eval_nat_numeral)

lemma ext_header_walk_outcome:
  assumes pr: "ext_present self = replicate 8 False"
  shows "let d = fst (snd (ext_header_walk new self)); b = body self
         in body d = b \<and> cls d = cls self \<and> ext_stored d \<le> length b - 4 \<and>
            ext_values new b (ext_flagged (ext_flags b)) (ext_hdr_len b) d \<and>
            (length b < 4 \<or> int (length b) < ext_hdr_len b + 1 \<or>
               ext_hdr_len b + 3 \<le> int (length b) \<longrightarrow>
             ext_present d = ext_expected b)"
proof -
  let ?b = "body self" and ?c = "cls self"
  let ?self1 = "self\<lparr>AdvMode := Some (drop_bit 6 (uint (?b ! 2)))\<rparr>"
  let ?hl = "uint (?b ! 2) AND 0x3F"
  let ?F = "ext_flagged (ext_flags ?b)"
  let ?H = "length ?b < 4 \<or> int (length ?b) < ext_hdr_len ?b + 1 \<or>
            ext_hdr_len ?b + 3 \<le> int (length ?b)"
  have z1: "ext_stored self = 0" using all_absent(1) [OF pr] .
  have z2: "\<And>F hl. ext_values new ?b F hl self" using all_absent(2) [OF pr] .
  note z = z1 z2
  have v1: "\<And>F hl. ext_values new ?b F hl ?self1" using z2
    by (simp add: ext_values_def)
  consider (short) "length ?b < 3"
    | (incons) "\<not> length ?b < 3" "int (length ?b) < ?hl + 1"
    | (noflags) "\<not> length ?b < 3" "\<not> int (length ?b) < ?hl + 1" "\<not> 3 < length ?b"
    | (walk) "\<not> length ?b < 3" "\<not> int (length ?b) < ?hl + 1" "3 < length ?b"
    by blast
  then show ?thesis
  proof cases
    case short
    then have "ext_header_walk new self = (Some ValueError, self, 0)"
      by (simp add: ext_header_walk_def)
    with short pr z show ?thesis by (simp add: ext_expected_def)
  next
    case incons
    then have "ext_header_walk new self = (Some ValueError, ?self1, 0)"
      by (simp add: ext_header_walk_def Let_def)
    moreover from incons have "ext_hdr_len ?b = ?hl" by (simp add: ext_hdr_len_def getitem_def)
    ultimately show ?thesis using incons pr z v1 by (simp add: ext_expected_def)
  next
    case noflags
    then have "ext_header_walk new self = (Some IndexError, ?self1, 0)"
      by (simp add: ext_header_walk_def Let_def getitem_def)
    with noflags pr z v1 show ?thesis by (simp add: ext_expected_def)
  next
    case walk
    let ?f = "uint (?b ! 3)"
    have fl: "ext_flags ?b = ?f" using walk by (simp add: ext_flags_def getitem_def)
    have hl: "ext_hdr_len ?b = ?hl" using walk by (simp add: ext_hdr_len_def getitem_def)
    have "walk_inv ?b ?c (ext_flagged ?f @ [False]) 0 (None, ?self1, 4)"
      using pr z by (simp add: walk_inv_def)
    moreover have "walk_trk new ?b (ext_flagged ?f) ?hl 0 (None, ?self1, 4)"
      using v1 fl hl by (simp add: walk_trk_def ext_offset_0)
    ultimately have "walk_both new ?b ?c (ext_flagged ?f) ?hl 0 (None, ?self1, 4)"
      by (simp add: walk_both_def)
    from walk_final [OF walk7_both [OF this]]
    have A: "let d = fst (snd (walk_then (walk_then (walk_then (walk_then (walk_then
                   (walk_then (walk_then
              (walk_AdvA ?f ?self1 4)
              (walk_TargetA ?f))
              (walk_CTEInfo ?f))
              (walk_AdvDataInfo new ?f))
              (walk_AuxPtr ?f))
              (walk_SyncInfo ?f))
              (walk_TxPower ?f))
              (walk_ACAD ?hl)));
             F = ext_flagged ?f; k = ext_abort_at F (length ?b)
         in body d = ?b \<and> cls d = ?c \<and> ext_stored d \<le> length ?b - 4 \<and>
            ext_values new ?b F ?hl d \<and>
            ext_present d = take k F @ replicate (7 - k) False @
                              [k = 7 \<and> int (ext_offset F 7) - 3 < ?hl]" .
    have B: "ext_header_walk new self =
           (walk_then (walk_then (walk_then (walk_then (walk_then (walk_then (walk_then
              (walk_AdvA ?f ?self1 4)
              (walk_TargetA ?f))
              (walk_CTEInfo ?f))
              (walk_AdvDataInfo new ?f))
              (walk_AuxPtr ?f))
              (walk_SyncInfo ?f))
              (walk_TxPower ?f))
              (walk_ACAD ?hl))"
      using walk by (simp add: ext_header_walk_def Let_def getitem_def)
    show ?thesis
    proof (cases "?hl + 3 \<le> int (length ?b)")
      case True
      then have fits: "\<not> int (length ?b) - 3 < ?hl" by simp
      from A B fl hl fits walk True show ?thesis
        by (simp add: ext_expected_def Let_def)
    next
      case False
      from A B fl hl walk False show ?thesis
        by (simp add: Let_def)
    qed
  qed
qed

lemma ext_kind_update_ok:
  assumes "cls d = AdvExtIndMessage \<or> cls d = AuxAdvIndMessage \<or>
           cls d = AuxScanRspMessage \<or> cls d = AuxChainIndMessage"
    and "AdvMode d \<noteq> None"
  shows "\<exists>st'. update_state d st = (None, st')"
  using assms
  by (auto simp: update_state_def update_rules_def isinstance_def split: option.splits)

lemma select_type7_kinds:
  assumes "3 \<le> length (body pkt)" and "uint (body pkt ! 0) AND 0xF = 7"
    and "AdvertMessage_select pkt dstate = Inr c"
  shows "c = AdvExtIndMessage \<or> c = AuxAdvIndMessage \<or>
         c = AuxScanRspMessage \<or> c = AuxChainIndMessage"
proof -
  have gi: "getitem (body pkt) 0 = Inr (uint (body pkt ! 0))"
    using assms(1) by (cases "body pkt") (simp_all add: getitem_def)
  from assms(3) assms(2) show ?thesis
    by (auto simp: AdvertMessage_select_def gi type_classes_def
             split: if_splits option.splits)
qed

lemma ext_decode_entry:
  assumes "aa pkt = BLE_ADV_AA" and "3 \<le> length (body pkt)"
    and "uint (body pkt ! 0) AND 0xF = 7"
    and sel: "AdvertMessage_select pkt dstate = Inr c"
    and d: "AdvExtIndMessage_init c new pkt = Inr d"
    and m: "AdvMode d \<noteq> None"
  shows "isinstance c AdvExtIndMessage \<and>
         (\<exists>dstate'. DPacketMessage_decode pkt dstate new = (Decoded d, dstate'))"
proof -
  from select_type7_kinds [OF assms(2,3) sel]
  have tc: "c = AdvExtIndMessage \<or> c = AuxAdvIndMessage \<or>
            c = AuxScanRspMessage \<or> c = AuxChainIndMessage" .
  then have con: "construct c new pkt = AdvExtIndMessage_init c new pkt" by auto
  from AdvExtIndMessage_init_hdr [OF d] have c: "cls d = c" by (simp add: hdr_of_def)
  from tc have i: "isinstance c AdvExtIndMessage" by (auto simp: isinstance_def)
  have "\<exists>dstate'. DPacketMessage_decode pkt dstate new = (Decoded d, dstate')"
  proof (cases dstate)
    case None
    with sel con d assms(1) show ?thesis
      by (simp add: DPacketMessage_decode_def AdvertMessage_decode_def)
  next
    case (Some st)
    from ext_kind_update_ok [of d st] c tc m obtain st' where
      u: "update_state d st = (None, st')" by auto
    with Some sel con d assms(1) show ?thesis
      by (simp add: DPacketMessage_decode_def AdvertMessage_decode_def)
  qed
  with i show ?thesis by simp
qed

text \<open>
  C5, as the code has it. For a record with at least two body bytes the constructor of
  the ADV\_EXT\_IND family returns an instance of the class it was called for: no failure
  of the header walk escapes. No read goes past the end of the body: each populated
  field holds the bytes of the body at its offset (\<open>ext_values\<close>), and together the
  fields hold at most \<open>len(body) - 4\<close> bytes. Where the check of the declared
  header-body length that the code makes and the check against the bytes after offset 3
  agree, the populated fields are these (\<open>ext_expected\<close>): none when the body has no
  flags byte or the declared length exceeds the bytes after offset 3; otherwise the
  walk follows the flags byte in the order AdvA, TargetA, CTEInfo, AdvDataInfo, AuxPtr,
  SyncInfo, TxPower and aborts at the first flagged field among CTEInfo, AdvDataInfo,
  AuxPtr and TxPower that the body ends before. Every flagged field before that one is
  populated, that field and every field after it are absent, and when no read fails ACAD
  is populated if and only if the declared length reaches past the last flagged field.
  A record of PDU type 7 with at least three body bytes, for which dispatch selects
  the class \<open>c\<close>, is returned by the entry point as this instance, of an extended kind.
\<close>

theorem ext_header_partial_decode:
  assumes "2 \<le> length (body pkt)"
  shows "\<exists>d. AdvExtIndMessage_init c new pkt = Inr d \<and> cls d = c \<and> body d = body pkt \<and>
           AdvMode d = (if length (body pkt) < 3 then None
                        else Some (drop_bit 6 (uint (body pkt ! 2)))) \<and>
           ext_values new (body pkt) (ext_flagged (ext_flags (body pkt)))
             (ext_hdr_len (body pkt)) d \<and>
           ext_stored d \<le> length (body pkt) - 4 \<and>
           (length (body pkt) < 4 \<or> int (length (body pkt)) < ext_hdr_len (body pkt) + 1 \<or>
              ext_hdr_len (body pkt) + 3 \<le> int (length (body pkt)) \<longrightarrow>
            ext_present d = ext_expected (body pkt)) \<and>
           (aa pkt = BLE_ADV_AA \<and> 3 \<le> length (body pkt) \<and>
              uint (body pkt ! 0) AND 0xF = 7 \<and> AdvertMessage_select pkt dstate = Inr c \<longrightarrow>
            isinstance c AdvExtIndMessage \<and>
            (\<exists>dstate'. DPacketMessage_decode pkt dstate new = (Decoded d, dstate')))"
proof -
  from assms obtain self where self: "AdvertMessage_init c pkt = Inr self"
    by (simp add: AdvertMessage_init_eq)
  from AdvertMessage_init_hdr [OF self] have h: "cls self = c" "body self = body pkt"
    by (simp_all add: hdr_of_def)
  from self assms have pr: "ext_present self = replicate 8 False" and m: "AdvMode self = None"
    by (auto simp: AdvertMessage_init_eq ext_present_def DPacketMessage_init_def
                   eval_nat_numeral)
  define d where "d = fst (snd (ext_header_walk new self))"
  have init: "AdvExtIndMessage_init c new pkt = Inr d"
    using self by (simp add: AdvExtIndMessage_init_def d_def)
  have mode: "AdvMode d = (if length (body pkt) < 3 then None
                           else Some (drop_bit 6 (uint (body pkt ! 2))))"
    using ext_header_walk_AdvMode [of new self] h m by (simp add: d_def)
  have walk: "body d = body pkt \<and> cls d = c \<and> ext_stored d \<le> length (body pkt) - 4 \<and>
      ext_values new (body pkt) (ext_flagged (ext_flags (body pkt))) (ext_hdr_len (body pkt)) d \<and>
      (length (body pkt) < 4 \<or> int (length (body pkt)) < ext_hdr_len (body pkt) + 1 \<or>
         ext_hdr_len (body pkt) + 3 \<le> int (length (body pkt)) \<longrightarrow>
       ext_present d = ext_expected (body pkt))"
    using ext_header_walk_outcome [OF pr, of new] h by (simp add: d_def Let_def)
  have entry: "isinstance c AdvExtIndMessage \<and>
       (\<exists>dstate'. DPacketMessage_decode pkt dstate new = (Decoded d, dstate'))"
    if "aa pkt = BLE_ADV_AA" "3 \<le> length (body pkt)" "uint (body pkt ! 0) AND 0xF = 7"
       "AdvertMessage_select pkt dstate = Inr c"
  proof -
    from mode that(2) have "AdvMode d \<noteq> None" by simp
    from ext_decode_entry [OF that init this] show ?thesis .
  qed
  from init mode walk entry show ?thesis by blast
qed

theorem ext_header_partial_decode_witness:
  "2 \<le> length (body ex_ext_abort) \<and>
   (length (body ex_ext_abort) < 4 \<or>
    int (length (body ex_ext_abort)) < ext_hdr_len (body ex_ext_abort) + 1 \<or>
    ext_hdr_len (body ex_ext_abort) + 3 \<le> int (length (body ex_ext_abort))) \<and>
   aa ex_ext_abort = BLE_ADV_AA \<and> 3 \<le> length (body ex_ext_abort) \<and>
   uint (body ex_ext_abort ! 0) AND 0xF = 7 \<and>
   AdvertMessage_select ex_ext_abort (Some ex_state) = Inr AuxAdvIndMessage \<and>
   (\<exists>d. AdvExtIndMessage_init AuxAdvIndMessage 0 ex_ext_abort = Inr d \<and>
      cls d = AuxAdvIndMessage \<and> body d = body ex_ext_abort \<and>
      AdvMode d = Some 0 \<and>
      ext_values 0 (body ex_ext_abort) (ext_flagged (ext_flags (body ex_ext_abort)))
        (ext_hdr_len (body ex_ext_abort)) d \<and>
      ext_stored d \<le> length (body ex_ext_abort) - 4 \<and>
      ext_present d = [True, False, False, False, False, False, False, False] \<and>
      isinstance AuxAdvIndMessage AdvExtIndMessage \<and>
      (\<exists>dstate'. DPacketMessage_decode ex_ext_abort (Some ex_state) 0 = (Decoded d, dstate'))) \<and>
   ext_expected (body ex_aux_adv)
     = [False, False, False, True, True, False, False, False] \<and>
   map_sum id (\<lambda>d. (ext_present d, AdvA d, AdvDataInfo d))
     (AdvExtIndMessage_init AuxAdvIndMessage 0 ex_ext_abort)
     = Inr ([True, False, False, False, False, False, False, False],
            Some [0x11, 0x12, 0x13, 0x14, 0x15, 0x16], None)"
proof -
  have h1: "2 \<le> length (body ex_ext_abort)" by (simp add: ex_ext_abort_def)
  have h2: "length (body ex_ext_abort) < 4 \<or>
    int (length (body ex_ext_abort)) < ext_hdr_len (body ex_ext_abort) + 1 \<or>
    ext_hdr_len (body ex_ext_abort) + 3 \<le> int (length (body ex_ext_abort))"
    by code_simp
  have h3: "aa ex_ext_abort = BLE_ADV_AA" by code_simp
  have h4: "3 \<le> length (body ex_ext_abort)" by (simp add: ex_ext_abort_def)
  have h5: "uint (body ex_ext_abort ! 0) AND 0xF = 7" by code_simp
  have h6: "AdvertMessage_select ex_ext_abort (Some ex_state) = Inr AuxAdvIndMessage"
    by code_simp
  have m: "drop_bit 6 (uint (body ex_ext_abort ! 2)) = 0" by code_simp
  have e1: "ext_expected (body ex_ext_abort)
     = [True, False, False, False, False, False, False, False]" by code_simp
  have e2: "ext_expected (body ex_aux_adv)
     = [False, False, False, True, True, False, False, False]" by code_simp
  have e3: "map_sum id (\<lambda>d. (ext_present d, AdvA d, AdvDataInfo d))
     (AdvExtIndMessage_init AuxAdvIndMessage 0 ex_ext_abort)
     = Inr ([True, False, False, False, False, False, False, False],
            Some [0x11, 0x12, 0x13, 0x14, 0x15, 0x16], None)" by code_simp
  from ext_header_partial_decode [OF h1, of AuxAdvIndMessage 0 "Some ex_state"]
  obtain d where d: "AdvExtIndMessage_init AuxAdvIndMessage 0 ex_ext_abort = Inr d"
      "cls d = AuxAdvIndMessage" "body d = body ex_ext_abort"
      "AdvMode d = Some 0"
      "ext_values 0 (body ex_ext_abort) (ext_flagged (ext_flags (body ex_ext_abort)))
        (ext_hdr_len (body ex_ext_abort)) d"
      "ext_stored d \<le> length (body ex_ext_abort) - 4"
      "ext_present d = [True, False, False, False, False, False, False, False]"
      "isinstance AuxAdvIndMessage AdvExtIndMessage"
      "\<exists>dstate'. DPacketMessage_decode ex_ext_abort (Some ex_state) 0 = (Decoded d, dstate')"
    using h2 h3 h4 h5 h6 m e1 by auto
  with h1 h2 h3 h4 h5 h6 e2 e3 show ?thesis by blast
qed

text \<open>
  C5 as claimed fails on three counts. The walk follows the flags byte and is not bounded
  by the declared header-body length, and a field that is read as a slice (AdvA,
  TargetA, SyncInfo, ACAD) is cut at the end of the body instead of aborting the walk.
  For \<open>ex_ext_trunc\<close> (6 bytes, declared header-body length 1) the walk raises nothing,
  stores the two bytes after the flags as AdvA and ends with \<open>hdrPos\<close> 10: seven bytes
  past offset 3 for a declared length of 1, four past the end of the body, and a partial
  AdvA that is not absent. And the constructor leaves \<open>AdvMode\<close> unassigned for a body
  of two bytes, which the state update of a scanning session reads: \<open>ex_ext_two\<close> is
  constructed, and the entry point returns the record undecoded.
\<close>

theorem ext_header_walk_counterexample:
  "length (body ex_ext_trunc) = 6 \<and> uint (body ex_ext_trunc ! 2) AND 0x3F = 1 \<and>
   map_sum id (\<lambda>self. view_walk (ext_header_walk 0 self))
     (AdvertMessage_init AuxAdvIndMessage ex_ext_trunc)
     = Inr (None, Some 0, Some [0xAA, 0xBB], None, 10,
            [True, False, False, False, False, False, False, False]) \<and>
   map_sum id AdvMode (AdvExtIndMessage_init AuxAdvIndMessage 0 ex_ext_two) = Inr None \<and>
   DPacketMessage_decode ex_ext_two (Some (ex_state\<lparr>last_state := SCANNING\<rparr>)) 0
     = (Undecoded ex_ext_two, Some (ex_state\<lparr>last_state := SCANNING\<rparr>))"
  by code_simp

text \<open>For \<open>ex_ext_trunc\<close> the presence list is the one described: the AdvA alone.\<close>

lemma ext_expected_trunc:
  "ext_expected (body ex_ext_trunc) = [True, False, False, False, False, False, False, False]"
  by code_simp

text \<open>
  The one check of the declared length, \<open>len(self.body) < hdrBodyLen + 1\<close>, lets
  \<open>ex_ext_short\<close> pass, although the header starts at offset 3 and the declared two
  bytes are not there: the walk raises nothing and stores an empty ACAD.
\<close>

lemma ext_header_length_check_slack:
  "length (body ex_ext_short) = 4 \<and> uint (body ex_ext_short ! 2) AND 0x3F = 2 \<and>
   map_sum id (\<lambda>self. view_walk (ext_header_walk 0 self))
     (AdvertMessage_init AuxAdvIndMessage ex_ext_short)
     = Inr (None, Some 0, None, Some [], 5,
            [False, False, False, False, False, False, False, True])"
  by code_simp

subsection \<open>The scan correlation scenario\<close>

text \<open>
  An AUX\_SCAN\_REQ at 1 s arms the scan-response deadline with the float sum
  \<open>1.0 + 0.0005\<close>, which is 4505851427184181 / 2^52. The type 7 record \<open>ex_aux_adv\<close> on
  the same channel is then an AUX\_SCAN\_RSP at 4097/4096 s (about 1.0002 s), which also
  clears the deadline, and an AUX\_ADV\_IND at 1025/1024 s (about 1.001 s).
\<close>

lemma scan_correlation_scenario:
  "map_prod view_result (map_option aux_pending_scan_rsp)
     (DPacketMessage_decode ex_aux_scan_req (Some ex_state) 0)
     = (Some AuxScanReqMessage, Some (Some (4505851427184181 / 4503599627370496))) \<and>
   map_prod view_result (map_option aux_pending_scan_rsp)
     (DPacketMessage_decode (ex_aux_adv\<lparr>ts := 4097 / 4096\<rparr>)
        (snd (DPacketMessage_decode ex_aux_scan_req (Some ex_state) 0)) 1)
     = (Some AuxScanRspMessage, Some None) \<and>
   map_prod view_result (map_option aux_pending_scan_rsp)
     (DPacketMessage_decode (ex_aux_adv\<lparr>ts := 1025 / 1024\<rparr>)
        (snd (DPacketMessage_decode ex_aux_scan_req (Some ex_state) 0)) 1)
     = (Some AuxAdvIndMessage, Some None)"
  by code_simp

text \<open>
  The deadline is the float sum, not the exact one: \<open>0.0001 + 0.0005\<close> is the double
  above 0.0006, so after an AUX\_SCAN\_REQ at 0.0001 s the type 7 record at 0.0006 s is
  before the deadline and is an AUX\_SCAN\_RSP.
\<close>

lemma scan_deadline_rounding:
  "float_round (6 / 10000) <
     float_add (float_round (1 / 10000)) (float_round (5 / 10000)) \<and>
   map_prod view_result (map_option aux_pending_scan_rsp)
     (DPacketMessage_decode (ex_aux_scan_req\<lparr>ts := float_round (1 / 10000)\<rparr>)
        (Some ex_state) 0)
     = (Some AuxScanReqMessage, Some (Some (2767011611056433 / 4611686018427387904))) \<and>
   view_result (fst
     (DPacketMessage_decode (ex_aux_adv\<lparr>ts := float_round (6 / 10000)\<rparr>)
        (snd (DPacketMessage_decode (ex_aux_scan_req\<lparr>ts := float_round (1 / 10000)\<rparr>)
                (Some ex_state) 0)) 1))
     = Some AuxScanRspMessage"
  by code_simp

end
